theory Spec2Isabelle
  imports Main "HOL-Library.AList"
begin

section \<open>Go strings: bytes, runes and the string helpers the lexer calls\<close>

text \<open>
  A Go \<^verbatim>\<open>string\<close> is a sequence of bytes; it is modelled as a \<^typ>\<open>string\<close>, whose
  characters are bytes. A \<^verbatim>\<open>rune\<close> is a Unicode code point, modelled as a natural
  number (a \<^verbatim>\<open>range\<close> loop over a string only ever yields values between \<open>0\<close> and
  \<open>0x10FFFF\<close>).
\<close>

type_synonym rune = nat

definition runeError :: rune where
  "runeError = 0xFFFD"

definition maxRune :: rune where
  "maxRune = 0x10FFFF"

definition surrogate :: "rune \<Rightarrow> bool" where
  "surrogate r = (0xD800 \<le> r \<and> r \<le> 0xDFFF)"

definition contb :: "char \<Rightarrow> bool" where
  \<comment> \<open>a continuation byte: \<^verbatim>\<open>locb <= b && b <= hicb\<close>\<close>
  "contb b = (0x80 \<le> (of_char b :: nat) \<and> (of_char b :: nat) \<le> 0xBF)"

definition lowbits :: "char \<Rightarrow> nat" where
  \<comment> \<open>\<^verbatim>\<open>rune(b & maskx)\<close>, the six payload bits of a byte\<close>
  "lowbits b = (of_char b :: nat) mod 64"

text \<open>
  \<^verbatim>\<open>decoderune\<close> of the Go runtime, which a \<^verbatim>\<open>range\<close> loop over a string calls: the
  first code point of a non-empty string and the number of bytes it takes. An invalid or
  truncated sequence, an overlong encoding, a surrogate half and a value beyond
  \<^verbatim>\<open>maxRune\<close> all give \<^verbatim>\<open>runeError\<close> and a width of one byte. (The loop itself reads
  a byte below \<^verbatim>\<open>0x80\<close> without the call; that is the first branch here.)
\<close>

definition decode2 :: "string \<Rightarrow> rune \<times> nat" where
  \<comment> \<open>\<^verbatim>\<open>case t2 <= s[0] && s[0] < t3\<close>: a two-byte sequence, \<open>0x80\<close> to \<open>0x7FF\<close>\<close>
  "decode2 s =
     (if length s > 1 \<and> contb (s ! 1) then
        (let r = ((of_char (s ! 0) :: nat) mod 32) * 64 + lowbits (s ! 1) in
         if 0x7F < r then (r, 2) else (runeError, 1))
      else (runeError, 1))"

definition decode3 :: "string \<Rightarrow> rune \<times> nat" where
  \<comment> \<open>\<^verbatim>\<open>case t3 <= s[0] && s[0] < t4\<close>: a three-byte sequence, \<open>0x800\<close> to \<open>0xFFFF\<close>\<close>
  "decode3 s =
     (if length s > 2 \<and> contb (s ! 1) \<and> contb (s ! 2) then
        (let r = ((of_char (s ! 0) :: nat) mod 16) * 4096 + lowbits (s ! 1) * 64
                   + lowbits (s ! 2) in
         if 0x7FF < r \<and> \<not> surrogate r then (r, 3) else (runeError, 1))
      else (runeError, 1))"

definition decode4 :: "string \<Rightarrow> rune \<times> nat" where
  \<comment> \<open>\<^verbatim>\<open>case t4 <= s[0] && s[0] < t5\<close>: a four-byte sequence, \<open>0x10000\<close> to \<open>0x10FFFF\<close>\<close>
  "decode4 s =
     (if length s > 3 \<and> contb (s ! 1) \<and> contb (s ! 2) \<and> contb (s ! 3) then
        (let r = ((of_char (s ! 0) :: nat) mod 8) * 262144 + lowbits (s ! 1) * 4096
                   + lowbits (s ! 2) * 64 + lowbits (s ! 3) in
         if 0xFFFF < r \<and> r \<le> maxRune then (r, 4) else (runeError, 1))
      else (runeError, 1))"

definition decoderune :: "string \<Rightarrow> rune \<times> nat" where
  "decoderune s =
     (let s0 = (of_char (s ! 0) :: nat) in
      if s0 < 0x80 then (s0, 1)
      else if 0xC0 \<le> s0 \<and> s0 < 0xE0 then decode2 s
      else if 0xE0 \<le> s0 \<and> s0 < 0xF0 then decode3 s
      else if 0xF0 \<le> s0 \<and> s0 < 0xF8 then decode4 s
      else (runeError, 1))"

text \<open>
  \<^verbatim>\<open>for _, a := range s\<close>: the code points of \<open>s\<close>, left to right. The loop advances
  by the width \<^verbatim>\<open>decoderune\<close> reports, which is at least one byte.
\<close>

fun range_string :: "string \<Rightarrow> rune list" where
  "range_string [] = []"
| "range_string (c # cs) =
     fst (decoderune (c # cs)) # range_string (drop (snd (decoderune (c # cs)) - 1) cs)"

text \<open>
  \<^verbatim>\<open>string(r)\<close> for a rune \<open>r\<close>: its UTF-8 encoding (\<^verbatim>\<open>encoderune\<close>). A surrogate half
  and a value beyond \<^verbatim>\<open>maxRune\<close> are encoded as \<^verbatim>\<open>runeError\<close>.
\<close>

definition encoderune :: "rune \<Rightarrow> string" where
  "encoderune r =
     (if r \<le> 0x7F then [char_of r]
      else if r \<le> 0x7FF then [char_of (0xC0 + r div 64), char_of (0x80 + r mod 64)]
      else if r > maxRune \<or> surrogate r then
        [char_of (0xE0 + runeError div 4096), char_of (0x80 + (runeError div 64) mod 64),
         char_of (0x80 + runeError mod 64)]
      else if r \<le> 0xFFFF then
        [char_of (0xE0 + r div 4096), char_of (0x80 + (r div 64) mod 64),
         char_of (0x80 + r mod 64)]
      else
        [char_of (0xF0 + r div 262144), char_of (0x80 + (r div 4096) mod 64),
         char_of (0x80 + (r div 64) mod 64), char_of (0x80 + r mod 64)])"

text \<open>
  The code points \<^verbatim>\<open>decoderune\<close> can yield: up to \<^verbatim>\<open>maxRune\<close>, and no surrogate half.
\<close>

definition valid_rune :: "rune \<Rightarrow> bool" where
  "valid_rune r = (r \<le> maxRune \<and> \<not> surrogate r)"

text \<open>\<^verbatim>\<open>strings.HasPrefix\<close>: \<^verbatim>\<open>len(s) >= len(prefix) && s[:len(prefix)] == prefix\<close>.\<close>

definition HasPrefix :: "string \<Rightarrow> string \<Rightarrow> bool" where
  "HasPrefix s pre = (length s \<ge> length pre \<and> take (length pre) s = pre)"

text \<open>
  \<^verbatim>\<open>strings.Index\<close>: the index of the first instance of \<open>substr\<close> in \<open>s\<close>; Go's \<open>-1\<close>
  is \<open>None\<close>.
\<close>

fun Index :: "string \<Rightarrow> string \<Rightarrow> nat option" where
  "Index [] substr = (if substr = [] then Some 0 else None)"
| "Index (c # cs) substr =
     (if HasPrefix (c # cs) substr then Some 0 else map_option Suc (Index cs substr))"

text \<open>
  \<^verbatim>\<open>strings.SplitN(s, sep, n)\<close> for a non-empty separator and \<open>n \<ge> 0\<close> (the lexer calls
  it with \<^verbatim>\<open>"="\<close> and \<open>2\<close>): \<open>n = 0\<close> gives no substrings; otherwise the loop of
  \<^verbatim>\<open>genSplit\<close> cuts at most \<open>n - 1\<close> times, and the last substring is the unsplit
  remainder.
\<close>

fun genSplit :: "nat \<Rightarrow> string \<Rightarrow> string \<Rightarrow> string list" where
  "genSplit 0 s sep = [s]"
| "genSplit (Suc k) s sep =
     (case Index s sep of
        None \<Rightarrow> [s]
      | Some m \<Rightarrow> take m s # genSplit k (drop (m + length sep) s) sep)"

definition SplitN :: "string \<Rightarrow> string \<Rightarrow> nat \<Rightarrow> string list" where
  "SplitN s sep n = (if n = 0 then [] else genSplit (n - 1) s sep)"

text \<open>\<^verbatim>\<open>strings.Join\<close>.\<close>

fun Join :: "string list \<Rightarrow> string \<Rightarrow> string" where
  "Join [] sep = []"
| "Join [x] sep = x"
| "Join (x # y # ys) sep = x @ sep @ Join (y # ys) sep"

section \<open>The lexer (lexer.go)\<close>

text \<open>
  \<^verbatim>\<open>type TokenType int\<close> with its four constants. No function of the repository makes
  a token of another type, so the \<^verbatim>\<open>default\<close> branch of \<^verbatim>\<open>Token.String\<close>, which panics,
  has no counterpart here.
\<close>

datatype TokenType = TokenShort | TokenLong | TokenArg | TokenEOF

datatype Token = Token (Type: TokenType) (Value: string)

definition TokenEOFMarker :: Token where
  "TokenEOFMarker = Token TokenEOF []"

definition IsFlag :: "Token \<Rightarrow> bool" where
  "IsFlag t = (Type t = TokenShort \<or> Type t = TokenLong)"

definition IsEOF :: "Token \<Rightarrow> bool" where
  "IsEOF t = (Type t = TokenEOF)"

fun Token_String :: "Token \<Rightarrow> string" where
  "Token_String (Token TokenShort v) = ''-'' @ v"
| "Token_String (Token TokenLong v) = ''--'' @ v"
| "Token_String (Token TokenArg v) = v"
| "Token_String (Token TokenEOF v) = ''<EOF>''"

text \<open>
  \<^verbatim>\<open>type Tokens []*Token\<close>. No function of the repository writes through a token
  pointer, so a cursor is the list of the tokens it points to; Go's \<^verbatim>\<open>nil\<close> slice and
  the empty slice are both \<open>[]\<close>.
\<close>

type_synonym Tokens = "Token list"

definition Tokens_String :: "Tokens \<Rightarrow> string" where
  "Tokens_String t = ''Tokens{'' @ Join (map Token_String t) '', '' @ ''}''"

definition Next :: "Tokens \<Rightarrow> Token \<times> Tokens" where
  "Next t = (if length t = 0 then (TokenEOFMarker, []) else (t ! 0, drop 1 t))"

definition Return :: "Tokens \<Rightarrow> Token \<Rightarrow> Tokens" where
  "Return t token = (if Type token = TokenEOF then t else [token] @ t)"

definition Peek :: "Tokens \<Rightarrow> Token" where
  "Peek t = (if length t = 0 then TokenEOFMarker else t ! 0)"

text \<open>
  The body of the loop of \<^verbatim>\<open>Tokenize\<close>: the tokens one raw argument appends to
  \<open>tokens\<close>. \<^verbatim>\<open>SplitN\<close> with a count of two returns one or two parts, so \<^verbatim>\<open>parts[0]\<close>
  is always in range (lemma \<open>SplitN_2_cases\<close> below).
\<close>

definition Tokenize_arg :: "Tokens \<Rightarrow> string \<Rightarrow> Tokens" where
  "Tokenize_arg tokens arg =
     (if HasPrefix arg ''--'' then
        (let parts = SplitN (drop 2 arg) ''='' 2;
             tokens = tokens @ [Token TokenLong (parts ! 0)]
         in if length parts = 2 then tokens @ [Token TokenArg (parts ! 1)] else tokens)
      else if HasPrefix arg ''-'' then
        foldl (\<lambda>tokens a. tokens @ [Token TokenShort (encoderune a)]) tokens
          (range_string (drop 1 arg))
      else tokens @ [Token TokenArg arg])"

text \<open>\<^verbatim>\<open>Tokenize\<close>: the loop over the raw arguments, from the \<^verbatim>\<open>nil\<close> slice.\<close>

definition Tokenize :: "string list \<Rightarrow> Tokens" where
  "Tokenize args = foldl Tokenize_arg [] args"

section \<open>Errors and process exit\<close>

text \<open>
  An \<^verbatim>\<open>error\<close> made by \<^verbatim>\<open>fmt.Errorf\<close> is its message; Go's \<^verbatim>\<open>nil\<close> error is \<open>None\<close>
  of \<^typ>\<open>'a option\<close>.
\<close>

datatype error = Errorf string

text \<open>
  A dispatch hook may call \<^verbatim>\<open>os.Exit\<close> (\<^verbatim>\<open>onFlagHelp\<close> and \<^verbatim>\<open>onCommandHelp\<close> do): the
  call that runs it then never returns. A call that can run a hook therefore either exits
  the process with a status or returns its results.
\<close>

datatype 'a outcome = Exit (exit_status: int) | Returns (returned: 'a)

section \<open>Clauses and groups\<close>

text \<open>
  The files of the repository that declare \<^verbatim>\<open>flagGroup\<close>, \<^verbatim>\<open>argGroup\<close>, \<^verbatim>\<open>cmdGroup\<close>
  and their clauses are not at hand; app.go and usage.go use them. Their types are modelled
  here with the fields these two files read and write, their builder methods from section
  3 of the specification, and their \<^verbatim>\<open>init\<close> and \<^verbatim>\<open>parse\<close> methods are parameters of the
  functions of app.go.
\<close>

text \<open>
  \<^verbatim>\<open>type Dispatch func() error\<close> (app.go): the two hooks app.go installs, and a caller's
  own closure, known by a number.
\<close>

datatype Dispatch = onFlagHelp | onCommandHelp | userDispatch nat

text \<open>
  Modelled from the spec: the value converter of a clause, whose declaration is missing
  (section 2, "Value Converter capability"), for the two converters the engine itself
  provides, boolean and string, each with the value currently bound.
\<close>

datatype Value = boolValue bool | stringValue string

text \<open>
  Modelled from the spec: the struct \<^verbatim>\<open>FlagClause\<close>, whose declaration is missing (section
  3, "Flag Clause"), with the fields usage.go reads (\<^verbatim>\<open>name\<close>, \<^verbatim>\<open>shorthand\<close>, zero for
  none, \<^verbatim>\<open>help\<close>, \<^verbatim>\<open>required\<close>, \<^verbatim>\<open>value\<close>) and the hook \<^verbatim>\<open>Dispatch(...)\<close> sets.
\<close>

record FlagClause =
  flag_name :: string
  flag_shorthand :: rune
  flag_help :: string
  flag_required :: bool
  flag_dispatch :: "Dispatch option"
  flag_value :: Value

text \<open>
  Modelled from the spec: the struct \<^verbatim>\<open>flagGroup\<close>, whose declaration is missing (section
  3, "Flag Group"), with the fields usage.go reads. \<^verbatim>\<open>flagOrder\<close> holds the clauses in
  declaration order; \<^verbatim>\<open>long\<close> maps a name to the clause it points to, given by its
  position in \<^verbatim>\<open>flagOrder\<close> (which nothing reorders).
\<close>

record flagGroup =
  long :: "(string \<times> nat) list"
  flagOrder :: "FlagClause list"

text \<open>
  Modelled from the spec: the struct \<^verbatim>\<open>ArgClause\<close>, whose declaration is missing (section
  3, "Argument Clause"), with the fields usage.go reads (\<^verbatim>\<open>name\<close>, \<^verbatim>\<open>help\<close>,
  \<^verbatim>\<open>required\<close>) and what \<^verbatim>\<open>Dispatch(...)\<close> and \<^verbatim>\<open>String()\<close> set in \<^verbatim>\<open>init\<close>.
\<close>

record ArgClause =
  arg_name :: string
  arg_help :: string
  arg_required :: bool
  arg_dispatch :: "Dispatch option"
  arg_value :: Value

text \<open>
  Modelled from the spec: the struct \<^verbatim>\<open>argGroup\<close>, whose declaration is missing (section
  3: the clauses "held in an ordered sequence"), with the field \<^verbatim>\<open>args\<close> usage.go reads.
\<close>

record argGroup =
  args :: "ArgClause list"

text \<open>
  Modelled from the spec: the struct \<^verbatim>\<open>CmdClause\<close>, whose declaration is missing (section
  3, "Command Clause"), with the fields usage.go reads: its own flag group and argument
  group, \<^verbatim>\<open>name\<close> and \<^verbatim>\<open>help\<close>, and a hook. (No function at hand reads a command
  group of a command clause; the model has none.)
\<close>

record CmdClause =
  cmd_flagGroup :: flagGroup
  cmd_argGroup :: argGroup
  cmd_name :: string
  cmd_help :: string
  cmd_dispatch :: "Dispatch option"

text \<open>
  Modelled from the spec: the struct \<^verbatim>\<open>cmdGroup\<close>, whose declaration is missing (section
  3, "Command Group"), with the fields app.go and usage.go use. \<^verbatim>\<open>commands\<close> (a
  \<^verbatim>\<open>map[string]*CmdClause\<close>) and \<^verbatim>\<open>commandOrder\<close> (a \<^verbatim>\<open>[]*CmdClause\<close>) point to the same
  clauses, and \<^verbatim>\<open>init\<close> writes to a clause after it is registered in both. So the clauses
  live in a store, \<open>clauses\<close>; a \<^verbatim>\<open>*CmdClause\<close> is a position in it, and a new clause is
  allocated at its end. A Go map is an association list with one pair per key.
\<close>

record cmdGroup =
  clauses :: "CmdClause list"
  commands :: "(string \<times> nat) list"
  commandOrder :: "nat list"

text \<open>
  \<^verbatim>\<open>type Application struct\<close> (app.go). \<^verbatim>\<open>commandHelp\<close> is a \<^verbatim>\<open>*string\<close>: \<^verbatim>\<open>nil\<close>, or
  the value slot of an argument, given by the command clause and the position of the
  argument in its \<^verbatim>\<open>args\<close>.
\<close>

record Application =
  flagGroup :: flagGroup
  argGroup :: argGroup
  cmdGroup :: cmdGroup
  initialized :: bool
  commandHelp :: "(nat \<times> nat) option"
  Name :: string
  Help :: string

subsection \<open>Declaring clauses\<close>

text \<open>
  The constructors of the groups and the builder methods are missing. Section 3 of the
  specification: a flag group is a "mapping from long name to Flag Clause (keys unique)"
  with "an insertion-ordered sequence of Flag Clauses"; an argument group holds its clauses
  "in an ordered sequence"; a command group is a "mapping from name to Command Clause (keys
  unique) plus an insertion-ordered sequence"; a command clause has its "ownFlagGroup" and
  "ownArgGroup". A declaration adds one clause to the mapping and at the end of the
  sequence. The builder methods of a clause run through the pointer the declaration
  returns, before anything reads the clause; the model declares the finished clause.
\<close>

definition newFlagGroup :: flagGroup where
  \<comment> \<open>Modelled from the spec: \<^verbatim>\<open>newFlagGroup\<close> (missing), a group with no clause\<close>
  "newFlagGroup = \<lparr>long = [], flagOrder = []\<rparr>"

definition newArgGroup :: argGroup where
  \<comment> \<open>Modelled from the spec: \<^verbatim>\<open>newArgGroup\<close> (missing), a group with no clause\<close>
  "newArgGroup = \<lparr>args = []\<rparr>"

definition newCmdGroup :: cmdGroup where
  \<comment> \<open>Modelled from the spec: \<^verbatim>\<open>newCmdGroup\<close> (missing), a group with no clause\<close>
  "newCmdGroup = \<lparr>clauses = [], commands = [], commandOrder = []\<rparr>"

definition newFlag :: "string \<Rightarrow> string \<Rightarrow> FlagClause" where
  \<comment> \<open>Modelled from the spec: the clause \<^verbatim>\<open>Flag(name, help)\<close> creates (missing): not
      required, no short alias, no hook\<close>
  "newFlag name h =
     \<lparr>flag_name = name, flag_shorthand = 0, flag_help = h, flag_required = False,
      flag_dispatch = None, flag_value = stringValue []\<rparr>"

definition Flag_Required :: "FlagClause \<Rightarrow> FlagClause" where
  \<comment> \<open>Modelled from the spec: \<^verbatim>\<open>FlagClause.Required\<close> (missing) sets "required"\<close>
  "Flag_Required f = f\<lparr>flag_required := True\<rparr>"

definition Flag_Short :: "rune \<Rightarrow> FlagClause \<Rightarrow> FlagClause" where
  \<comment> \<open>Modelled from the spec: \<^verbatim>\<open>FlagClause.Short\<close> (missing) sets the "shortAlias"\<close>
  "Flag_Short c f = f\<lparr>flag_shorthand := c\<rparr>"

definition Flag_Dispatch :: "Dispatch \<Rightarrow> FlagClause \<Rightarrow> FlagClause" where
  \<comment> \<open>Modelled from the spec: \<^verbatim>\<open>FlagClause.Dispatch\<close> (missing) sets the "dispatchHook"\<close>
  "Flag_Dispatch d f = f\<lparr>flag_dispatch := Some d\<rparr>"

definition Flag_Bool :: "FlagClause \<Rightarrow> FlagClause" where
  \<comment> \<open>Modelled from the spec: \<^verbatim>\<open>FlagClause.Bool\<close> (missing) sets the boolean converter\<close>
  "Flag_Bool f = f\<lparr>flag_value := boolValue False\<rparr>"

definition Flag_String :: "FlagClause \<Rightarrow> FlagClause" where
  \<comment> \<open>Modelled from the spec: \<^verbatim>\<open>FlagClause.String\<close> (missing) sets the string converter\<close>
  "Flag_String f = f\<lparr>flag_value := stringValue []\<rparr>"

definition Flag :: "flagGroup \<Rightarrow> FlagClause \<Rightarrow> flagGroup" where
  \<comment> \<open>Modelled from the spec: \<^verbatim>\<open>flagGroup.Flag\<close> (missing) adds the clause to the
      mapping and at the end of the sequence\<close>
  "Flag g f =
     g\<lparr>long := AList.update (flag_name f) (length (flagOrder g)) (long g),
       flagOrder := flagOrder g @ [f]\<rparr>"

definition newArg :: "string \<Rightarrow> string \<Rightarrow> ArgClause" where
  \<comment> \<open>Modelled from the spec: the clause \<^verbatim>\<open>Arg(name, help)\<close> creates (missing): not
      required, no hook\<close>
  "newArg name h =
     \<lparr>arg_name = name, arg_help = h, arg_required = False, arg_dispatch = None,
      arg_value = stringValue []\<rparr>"

definition Arg_Required :: "ArgClause \<Rightarrow> ArgClause" where
  \<comment> \<open>Modelled from the spec: \<^verbatim>\<open>ArgClause.Required\<close> (missing) sets "required"\<close>
  "Arg_Required c = c\<lparr>arg_required := True\<rparr>"

definition Arg_Dispatch :: "Dispatch \<Rightarrow> ArgClause \<Rightarrow> ArgClause" where
  \<comment> \<open>Modelled from the spec: \<^verbatim>\<open>ArgClause.Dispatch\<close> (missing) sets the "dispatchHook"\<close>
  "Arg_Dispatch d c = c\<lparr>arg_dispatch := Some d\<rparr>"

definition Arg_String :: "ArgClause \<Rightarrow> ArgClause" where
  \<comment> \<open>Modelled from the spec: \<^verbatim>\<open>ArgClause.String\<close> (missing) sets the string converter\<close>
  "Arg_String c = c\<lparr>arg_value := stringValue []\<rparr>"

definition Arg :: "argGroup \<Rightarrow> ArgClause \<Rightarrow> argGroup" where
  \<comment> \<open>Modelled from the spec: \<^verbatim>\<open>argGroup.Arg\<close> (missing) adds the clause at the end of
      the sequence\<close>
  "Arg g c = g\<lparr>args := args g @ [c]\<rparr>"

definition newCommand :: "string \<Rightarrow> string \<Rightarrow> CmdClause" where
  \<comment> \<open>Modelled from the spec: the clause \<^verbatim>\<open>Command(name, help)\<close> creates (missing), with
      its own empty flag group and argument group\<close>
  "newCommand name h =
     \<lparr>cmd_flagGroup = newFlagGroup, cmd_argGroup = newArgGroup, cmd_name = name,
      cmd_help = h, cmd_dispatch = None\<rparr>"

definition Command :: "cmdGroup \<Rightarrow> string \<Rightarrow> string \<Rightarrow> nat \<times> cmdGroup" where
  \<comment> \<open>Modelled from the spec: \<^verbatim>\<open>cmdGroup.Command\<close> (missing) allocates the clause, adds
      it to the mapping and at the end of the sequence, and returns the pointer to it\<close>
  "Command g name h =
     (let cmd = length (clauses g) in
      (cmd, g\<lparr>clauses := clauses g @ [newCommand name h],
               commands := AList.update name cmd (commands g),
               commandOrder := commandOrder g @ [cmd]\<rparr>))"

definition Cmd_Arg :: "cmdGroup \<Rightarrow> nat \<Rightarrow> ArgClause \<Rightarrow> cmdGroup" where
  \<comment> \<open>\<^verbatim>\<open>cmd.Arg(...)\<close> for a pointer \<open>cmd\<close> that \<^verbatim>\<open>Command\<close> returned: \<^verbatim>\<open>Arg\<close> on the
      argument group of the clause it points to\<close>
  "Cmd_Arg g cmd c =
     g\<lparr>clauses := (clauses g)[cmd := (clauses g ! cmd)
                       \<lparr>cmd_argGroup := Arg (cmd_argGroup (clauses g ! cmd)) c\<rparr>]\<rparr>"

definition Cmd_Flag :: "cmdGroup \<Rightarrow> nat \<Rightarrow> FlagClause \<Rightarrow> cmdGroup" where
  \<comment> \<open>\<^verbatim>\<open>cmd.Flag(...)\<close> for a pointer \<open>cmd\<close> that \<^verbatim>\<open>Command\<close> returned: \<^verbatim>\<open>Flag\<close> on the
      flag group of the clause it points to\<close>
  "Cmd_Flag g cmd f =
     g\<lparr>clauses := (clauses g)[cmd := (clauses g ! cmd)
                       \<lparr>cmd_flagGroup := Flag (cmd_flagGroup (clauses g ! cmd)) f\<rparr>]\<rparr>"

definition argGroup_have :: "argGroup \<Rightarrow> bool" where
  \<comment> \<open>Modelled from the spec: \<^verbatim>\<open>argGroup.have\<close> (missing). Section 4.5: initialization
      rejects "a configuration that declares both top-level positional arguments and
      top-level commands"; \<^verbatim>\<open>have\<close> tells whether the group declares a clause\<close>
  "argGroup_have g = (length (args g) > 0)"

definition cmdGroup_have :: "cmdGroup \<Rightarrow> bool" where
  \<comment> \<open>Modelled from the spec: \<^verbatim>\<open>cmdGroup.have\<close> (missing), as \<^verbatim>\<open>argGroup.have\<close>\<close>
  "cmdGroup_have g = (length (commands g) > 0)"

subsection \<open>The operations of the groups that app.go calls\<close>

text \<open>
  \<^verbatim>\<open>init\<close> and \<^verbatim>\<open>parse\<close> of the three groups and \<^verbatim>\<open>init\<close> of a command clause are
  missing, so \<^verbatim>\<open>Application.init\<close>, \<^verbatim>\<open>Application.parse\<close> and \<^verbatim>\<open>Application.Parse\<close> take
  them as a parameter, and what is proved of these three holds whatever the operations
  are.

  \<^item> Modelled from the spec: an \<^verbatim>\<open>init\<close> reads its group and reports the first violation
    (section 4.5: "initialize (validate shape invariants of) the root Flag Group, root
    Command Group, root Argument Group").
  \<^item> A \<^verbatim>\<open>parse\<close> takes its group and the cursor, runs dispatch hooks on the way, and
    either exits the process or returns the group with the values it bound, the rest of
    the cursor and an error (and the selected command path, for commands).
  \<^item> \<open>rangeCommands\<close> is the order in which \<^verbatim>\<open>range a.commands\<close> visits the map, which
    Go leaves unspecified.
\<close>

record GroupOps =
  flagGroup_init :: "flagGroup \<Rightarrow> error option"
  cmdGroup_init :: "cmdGroup \<Rightarrow> error option"
  argGroup_init :: "argGroup \<Rightarrow> error option"
  CmdClause_init :: "CmdClause \<Rightarrow> error option"
  rangeCommands :: "(string \<times> nat) list \<Rightarrow> (string \<times> nat) list"
  flagGroup_parse ::
    "flagGroup \<Rightarrow> Tokens \<Rightarrow> bool \<Rightarrow> (flagGroup \<times> Tokens \<times> error option) outcome"
  argGroup_parse :: "argGroup \<Rightarrow> Tokens \<Rightarrow> (argGroup \<times> Tokens \<times> error option) outcome"
  cmdGroup_parse ::
    "cmdGroup \<Rightarrow> Tokens \<Rightarrow> (cmdGroup \<times> string list \<times> Tokens \<times> error option) outcome"

section \<open>The application (app.go)\<close>

definition New :: "string \<Rightarrow> string \<Rightarrow> Application" where
  "New name h =
     (let a = \<lparr>flagGroup = newFlagGroup, argGroup = newArgGroup, cmdGroup = newCmdGroup,
               initialized = False, commandHelp = None, Name = name, Help = h\<rparr>
      in a\<lparr>flagGroup :=
             Flag (flagGroup a) (Flag_Bool (Flag_Dispatch onFlagHelp (newFlag ''help'' ''Show help.'')))\<rparr>)"

text \<open>
  The block of \<^verbatim>\<open>init\<close> that runs when commands are declared: it declares the command
  \<^verbatim>\<open>help\<close> with its argument \<^verbatim>\<open>command\<close>, keeps the pointer to the argument's value in
  \<^verbatim>\<open>commandHelp\<close>, and moves the last entry of \<^verbatim>\<open>commandOrder\<close> to the front
  (\<^verbatim>\<open>append(a.commandOrder[l:], a.commandOrder[:l]...)\<close> with \<open>l\<close> the length less one;
  \<^verbatim>\<open>Command\<close> has just appended an entry, so the length is not zero).
\<close>

definition init_help :: "Application \<Rightarrow> Application" where
  "init_help a =
     (let (cmd, g) = Command (cmdGroup a) ''help'' ''Show help for a command.'';
          n = length (args (cmd_argGroup (clauses g ! cmd)));
          g = Cmd_Arg g cmd
                (Arg_String (Arg_Dispatch onCommandHelp
                   (Arg_Required (newArg ''command'' ''Command name.''))));
          l = length (commandOrder g) - 1;
          g = g\<lparr>commandOrder := drop l (commandOrder g) @ take l (commandOrder g)\<rparr>
      in a\<lparr>cmdGroup := g, commandHelp := Some (cmd, n)\<rparr>)"

text \<open>
  \<^verbatim>\<open>for _, cmd := range a.commands { if err := cmd.init(); err != nil { return err } }\<close>
\<close>

fun init_commands :: "(CmdClause \<Rightarrow> error option) \<Rightarrow> CmdClause list \<Rightarrow> error option" where
  "init_commands ini [] = None"
| "init_commands ini (cmd # cmds) =
     (case ini cmd of Some err \<Rightarrow> Some err | None \<Rightarrow> init_commands ini cmds)"

definition init :: "GroupOps \<Rightarrow> Application \<Rightarrow> Application \<times> error option" where
  "init ops a =
     (if initialized a then (a, None)
      else if cmdGroup_have (cmdGroup a) \<and> argGroup_have (argGroup a) then
        (a, Some (Errorf ''can't mix top-level Arg()s with Command()s''))
      else
        (let a = (if length (commands (cmdGroup a)) > 0 then init_help a else a) in
         case flagGroup_init ops (flagGroup a) of Some err \<Rightarrow> (a, Some err) | None \<Rightarrow>
         (case cmdGroup_init ops (cmdGroup a) of Some err \<Rightarrow> (a, Some err) | None \<Rightarrow>
         (case argGroup_init ops (argGroup a) of Some err \<Rightarrow> (a, Some err) | None \<Rightarrow>
         (case init_commands (CmdClause_init ops)
                 (map (\<lambda>(name, cmd). clauses (cmdGroup a) ! cmd)
                    (rangeCommands ops (commands (cmdGroup a)))) of
            Some err \<Rightarrow> (a, Some err)
          | None \<Rightarrow> (a\<lparr>initialized := True\<rparr>, None))))))"

text \<open>
  \<^verbatim>\<open>Application.parse\<close>. The result is the application with what the groups bound, and
  the three values the Go function returns. (app.go writes the type of the cursor
  \<^verbatim>\<open>tokens\<close>; it is taken to be \<^verbatim>\<open>Tokens\<close> of lexer.go, the type of what \<^verbatim>\<open>Tokenize\<close>
  returns and \<^verbatim>\<open>Parse\<close> passes on.)
\<close>

definition parse ::
  "GroupOps \<Rightarrow> Application \<Rightarrow> Tokens \<Rightarrow> (Application \<times> Tokens \<times> string \<times> error option) outcome"
where
  "parse ops a tokens =
     (let runHelp = (Value (Peek tokens) = ''help'') in
      case flagGroup_parse ops (flagGroup a) tokens runHelp of
        Exit code \<Rightarrow> Exit code
      | Returns (fg, tokens, err) \<Rightarrow>
          (let a = a\<lparr>flagGroup := fg\<rparr> in
           if err \<noteq> None then Returns (a, tokens, [], err)
           else
             (let selected = [] in
              if argGroup_have (argGroup a) then
                (case argGroup_parse ops (argGroup a) tokens of
                   Exit code \<Rightarrow> Exit code
                 | Returns (ag, tokens, err) \<Rightarrow>
                     Returns (a\<lparr>argGroup := ag\<rparr>, tokens, Join selected '' '', err))
              else if cmdGroup_have (cmdGroup a) then
                (case cmdGroup_parse ops (cmdGroup a) tokens of
                   Exit code \<Rightarrow> Exit code
                 | Returns (cg, selected, tokens, err) \<Rightarrow>
                     Returns (a\<lparr>cmdGroup := cg\<rparr>, tokens, Join selected '' '', err))
              else Returns (a, tokens, Join selected '' '', err))))"

text \<open>
  \<^verbatim>\<open>Application.Parse\<close>: the application as the call leaves it, the command and the
  error. \<^verbatim>\<open>fmt.Errorf\<close> formats the remaining tokens with \<^verbatim>\<open>%s\<close>, that is with
  \<^verbatim>\<open>Tokens.String\<close>.
\<close>

definition Parse ::
  "GroupOps \<Rightarrow> Application \<Rightarrow> string list \<Rightarrow> (Application \<times> string \<times> error option) outcome"
where
  "Parse ops a args' =
     (case init ops a of
        (a, Some err) \<Rightarrow> Returns (a, [], Some err)
      | (a, None) \<Rightarrow>
          (let tokens = Tokenize args' in
           case parse ops a tokens of
             Exit code \<Rightarrow> Exit code
           | Returns (a, tokens, command, err) \<Rightarrow>
               if err \<noteq> None then Returns (a, [], err)
               else if length tokens = 1 then
                 Returns (a, [],
                   Some (Errorf (''unexpected argument '' @ [CHR 0x27] @ Tokens_String tokens
                                   @ [CHR 0x27])))
               else if length tokens > 0 then
                 Returns (a, [],
                   Some (Errorf (''unexpected arguments '' @ [CHR 0x27] @ Tokens_String tokens
                                   @ [CHR 0x27])))
               else Returns (a, command, err)))"

section \<open>An instance of the group operations\<close>

text \<open>
  To run \<^verbatim>\<open>Application.Parse\<close> on concrete command lines, this section gives one instance
  of the missing operations of the groups, written from sections 4.2 to 4.5 of the
  specification for the clauses of this model (boolean and string values, no nested
  commands). No theorem about \<^verbatim>\<open>init\<close>, \<^verbatim>\<open>parse\<close> or \<^verbatim>\<open>Parse\<close> depends on it: each is
  proved for every \<^typ>\<open>GroupOps\<close>, and only its instance at a concrete input uses this
  one.
\<close>

text \<open>
  \<^verbatim>\<open>onFlagHelp\<close> prints the usage and calls \<^verbatim>\<open>os.Exit(0)\<close>. \<^verbatim>\<open>onCommandHelp\<close> calls
  \<^verbatim>\<open>CommandUsage\<close> with the value of its argument, which calls \<^verbatim>\<open>Fatalf\<close> (that is
  \<^verbatim>\<open>os.Exit(1)\<close>) for a name that is not in \<^verbatim>\<open>commands\<close>, and then \<^verbatim>\<open>os.Exit(0)\<close>. A
  caller's closure is taken to return \<^verbatim>\<open>nil\<close>. \<open>cmds\<close> is \<^verbatim>\<open>a.commands\<close>.
\<close>

definition runDispatch :: "(string \<times> nat) list \<Rightarrow> Dispatch option \<Rightarrow> Value \<Rightarrow> unit outcome" where
  "runDispatch cmds d v =
     (case d of
        None \<Rightarrow> Returns ()
      | Some onFlagHelp \<Rightarrow> Exit 0
      | Some onCommandHelp \<Rightarrow>
          (case v of
             stringValue command \<Rightarrow> if map_of cmds command = None then Exit 1 else Exit 0
           | boolValue b \<Rightarrow> Exit 1)
      | Some (userDispatch n) \<Rightarrow> Returns ())"

text \<open>
  Modelled from the spec: binding a clause's value (section 4.2: a boolean flag is bound
  "to a canonical true representation", any other "raw string" goes "through the clause's
  converter", which for a string keeps it).
\<close>

definition bindValue :: "Value \<Rightarrow> string \<Rightarrow> Value" where
  "bindValue v s = (case v of boolValue b \<Rightarrow> boolValue True | stringValue old \<Rightarrow> stringValue s)"

text \<open>
  Modelled from the spec: looking a flag token up "by long or short name" (section 4.2);
  the result is the position of the clause in \<^verbatim>\<open>flagOrder\<close>.
\<close>

definition find_flag :: "flagGroup \<Rightarrow> Token \<Rightarrow> nat option" where
  "find_flag f t =
     (case Type t of
        TokenLong \<Rightarrow> map_of (long f) (Value t)
      | TokenShort \<Rightarrow>
          List.find (\<lambda>i. flag_shorthand (flagOrder f ! i) \<noteq> 0
                          \<and> encoderune (flag_shorthand (flagOrder f ! i)) = Value t)
            [0..<length (flagOrder f)]
      | TokenArg \<Rightarrow> None
      | TokenEOF \<Rightarrow> None)"

definition bindFlag :: "flagGroup \<Rightarrow> nat \<Rightarrow> string \<Rightarrow> flagGroup" where
  \<comment> \<open>Modelled from the spec: binding the flag clause at position \<open>i\<close> (section 4.2)\<close>
  "bindFlag f i s =
     f\<lparr>flagOrder := (flagOrder f)[i := (flagOrder f ! i)
          \<lparr>flag_value := bindValue (flag_value (flagOrder f ! i)) s\<rparr>]\<rparr>"

text \<open>
  Modelled from the spec: the scan of \<^verbatim>\<open>flagGroup.parse\<close> (missing; section 4.2). While the next token is a flag token: look it up ("unknown flag" if
  absent); a boolean flag takes no token; any other flag takes the next token, of any
  kind, as its value ("expected argument for flag" at the end of the stream); the hook
  runs right after the binding. \<open>seen\<close> collects the flags bound.
\<close>

fun flags_scan ::
  "(string \<times> nat) list \<Rightarrow> flagGroup \<Rightarrow> nat list \<Rightarrow> Tokens
     \<Rightarrow> (flagGroup \<times> nat list \<times> Tokens \<times> error option) outcome"
where
  "flags_scan cmds f seen [] = Returns (f, seen, [], None)"
| "flags_scan cmds f seen [t] =
     (if \<not> IsFlag t then Returns (f, seen, [t], None)
      else case find_flag f t of
        None \<Rightarrow> Returns (f, seen, [], Some (Errorf (''unknown flag '' @ Token_String t)))
      | Some i \<Rightarrow>
          (case flag_value (flagOrder f ! i) of
             boolValue b \<Rightarrow>
               (case runDispatch cmds (flag_dispatch (flagOrder f ! i))
                       (flag_value (flagOrder (bindFlag f i ''true'') ! i)) of
                  Exit code \<Rightarrow> Exit code
                | Returns u \<Rightarrow> Returns (bindFlag f i ''true'', i # seen, [], None))
           | stringValue s \<Rightarrow>
               Returns (f, seen, [],
                 Some (Errorf (''expected argument for flag '' @ Token_String t)))))"
| "flags_scan cmds f seen (t # v # ts) =
     (if \<not> IsFlag t then Returns (f, seen, t # v # ts, None)
      else case find_flag f t of
        None \<Rightarrow> Returns (f, seen, v # ts, Some (Errorf (''unknown flag '' @ Token_String t)))
      | Some i \<Rightarrow>
          (case flag_value (flagOrder f ! i) of
             boolValue b \<Rightarrow>
               (case runDispatch cmds (flag_dispatch (flagOrder f ! i))
                       (flag_value (flagOrder (bindFlag f i ''true'') ! i)) of
                  Exit code \<Rightarrow> Exit code
                | Returns u \<Rightarrow> flags_scan cmds (bindFlag f i ''true'') (i # seen) (v # ts))
           | stringValue s \<Rightarrow>
               (case runDispatch cmds (flag_dispatch (flagOrder f ! i))
                       (flag_value (flagOrder (bindFlag f i (Token_String v)) ! i)) of
                  Exit code \<Rightarrow> Exit code
                | Returns u \<Rightarrow> flags_scan cmds (bindFlag f i (Token_String v)) (i # seen) ts)))"

text \<open>
  Modelled from the spec: \<^verbatim>\<open>flagGroup.parse\<close> (section 4.2): the scan, then "for every
  declared required flag not yet bound, fail with 'required flag --X not provided' unless
  helpRequested is true".
\<close>

definition sample_flagGroup_parse ::
  "(string \<times> nat) list \<Rightarrow> flagGroup \<Rightarrow> Tokens \<Rightarrow> bool
     \<Rightarrow> (flagGroup \<times> Tokens \<times> error option) outcome"
where
  "sample_flagGroup_parse cmds f tokens helpRequested =
     (case flags_scan cmds f [] tokens of
        Exit code \<Rightarrow> Exit code
      | Returns (f, seen, tokens, Some err) \<Rightarrow> Returns (f, tokens, Some err)
      | Returns (f, seen, tokens, None) \<Rightarrow>
          if helpRequested then Returns (f, tokens, None)
          else
            (case List.find (\<lambda>i. flag_required (flagOrder f ! i) \<and> i \<notin> set seen)
                    [0..<length (flagOrder f)] of
               Some i \<Rightarrow>
                 Returns (f, tokens,
                   Some (Errorf (''required flag --'' @ flag_name (flagOrder f ! i)
                                   @ '' not provided'')))
             | None \<Rightarrow> Returns (f, tokens, None)))"

text \<open>
  Modelled from the spec: \<^verbatim>\<open>argGroup.parse\<close> (section 4.3), for clauses that are not
  variadic: each declared argument, in order, takes one token; at the end of the stream a
  required argument fails with "required argument <name> not provided" and an optional one
  stops the scan; the hook runs after the binding.
\<close>

fun args_scan ::
  "(string \<times> nat) list \<Rightarrow> ArgClause list \<Rightarrow> Tokens
     \<Rightarrow> (ArgClause list \<times> Tokens \<times> error option) outcome"
where
  "args_scan cmds [] tokens = Returns ([], tokens, None)"
| "args_scan cmds (c # cs) [] =
     (if arg_required c then
        Returns (c # cs, [],
          Some (Errorf (''required argument <'' @ arg_name c @ ''> not provided'')))
      else Returns (c # cs, [], None))"
| "args_scan cmds (c # cs) (t # ts) =
     (case runDispatch cmds (arg_dispatch c) (bindValue (arg_value c) (Token_String t)) of
        Exit code \<Rightarrow> Exit code
      | Returns u \<Rightarrow>
          (case args_scan cmds cs ts of
             Exit code \<Rightarrow> Exit code
           | Returns (cs, tokens, err) \<Rightarrow>
               Returns (c\<lparr>arg_value := bindValue (arg_value c) (Token_String t)\<rparr> # cs,
                        tokens, err)))"

definition sample_argGroup_parse ::
  "(string \<times> nat) list \<Rightarrow> argGroup \<Rightarrow> Tokens \<Rightarrow> (argGroup \<times> Tokens \<times> error option) outcome"
where
  \<comment> \<open>Modelled from the spec: \<^verbatim>\<open>argGroup.parse\<close> (missing; section 4.3), the scan above on
      the clauses of the group\<close>
  "sample_argGroup_parse cmds g tokens =
     (case args_scan cmds (args g) tokens of
        Exit code \<Rightarrow> Exit code
      | Returns (cs, tokens, err) \<Rightarrow> Returns (g\<lparr>args := cs\<rparr>, tokens, err))"

text \<open>
  Modelled from the spec: \<^verbatim>\<open>cmdGroup.parse\<close> (section 4.4), without nested commands: the
  next token must be a value ("expected command" otherwise) that names a declared command
  ("unknown command" otherwise); the rest goes to that command's flag group, then to its
  argument group; its hook runs last; the path is the command's name.
\<close>

definition sample_cmdGroup_parse ::
  "cmdGroup \<Rightarrow> Tokens \<Rightarrow> (cmdGroup \<times> string list \<times> Tokens \<times> error option) outcome"
where
  "sample_cmdGroup_parse g tokens =
     (let t = Peek tokens in
      if Type t \<noteq> TokenArg then Returns (g, [], tokens, Some (Errorf ''expected command''))
      else case map_of (commands g) (Value t) of
        None \<Rightarrow>
          Returns (g, [], tokens,
            Some (Errorf (''unknown command '' @ [CHR 0x27] @ Value t @ [CHR 0x27])))
      | Some cmd \<Rightarrow>
          (case sample_flagGroup_parse (commands g) (cmd_flagGroup (clauses g ! cmd))
                  (snd (Next tokens)) False of
             Exit code \<Rightarrow> Exit code
           | Returns (fg, tokens, Some err) \<Rightarrow>
               Returns (g\<lparr>clauses := (clauses g)[cmd := (clauses g ! cmd)\<lparr>cmd_flagGroup := fg\<rparr>]\<rparr>,
                        [], tokens, Some err)
           | Returns (fg, tokens, None) \<Rightarrow>
               (case sample_argGroup_parse (commands g) (cmd_argGroup (clauses g ! cmd)) tokens of
                  Exit code \<Rightarrow> Exit code
                | Returns (ag, tokens, Some err) \<Rightarrow>
                    Returns (g\<lparr>clauses := (clauses g)[cmd := (clauses g ! cmd)
                                 \<lparr>cmd_flagGroup := fg, cmd_argGroup := ag\<rparr>]\<rparr>,
                             [], tokens, Some err)
                | Returns (ag, tokens, None) \<Rightarrow>
                    (case runDispatch (commands g) (cmd_dispatch (clauses g ! cmd))
                            (stringValue []) of
                       Exit code \<Rightarrow> Exit code
                     | Returns u \<Rightarrow>
                         Returns (g\<lparr>clauses := (clauses g)[cmd := (clauses g ! cmd)
                                      \<lparr>cmd_flagGroup := fg, cmd_argGroup := ag\<rparr>]\<rparr>,
                                  [cmd_name (clauses g ! cmd)], tokens, None)))))"

text \<open>
  Modelled from the spec: the shape invariant of an argument group that \<^verbatim>\<open>argGroup.init\<close>
  (missing) validates (section 3: "once an optional argument appears in the declared
  sequence, no later argument may be required").
\<close>

fun required_prefix :: "ArgClause list \<Rightarrow> bool" where
  "required_prefix [] = True"
| "required_prefix (c # cs) =
     (if arg_required c then required_prefix cs else list_all (\<lambda>c. \<not> arg_required c) cs)"

definition sample_flagGroup_init :: "flagGroup \<Rightarrow> error option" where
  \<comment> \<open>Modelled from the spec: \<^verbatim>\<open>flagGroup.init\<close> (missing). Section 3: "no two clauses
      share a long name"\<close>
  "sample_flagGroup_init f =
     (if distinct (map flag_name (flagOrder f)) then None
      else Some (Errorf ''duplicate flag''))"

definition sample_argGroup_init :: "argGroup \<Rightarrow> error option" where
  \<comment> \<open>Modelled from the spec: \<^verbatim>\<open>argGroup.init\<close> (missing). Section 8: "declaring a
      required positional argument after an optional one must fail at initialization"\<close>
  "sample_argGroup_init g =
     (if required_prefix (args g) then None
      else Some (Errorf ''required arguments found after non-required''))"

definition sample_CmdClause_init :: "CmdClause \<Rightarrow> error option" where
  \<comment> \<open>Modelled from the spec: \<^verbatim>\<open>CmdClause.init\<close> (missing). Section 4.5: "every declared
      command's own groups"\<close>
  "sample_CmdClause_init c =
     (case sample_flagGroup_init (cmd_flagGroup c) of
        Some err \<Rightarrow> Some err
      | None \<Rightarrow> sample_argGroup_init (cmd_argGroup c))"

definition sample_cmdGroup_init :: "cmdGroup \<Rightarrow> error option" where
  \<comment> \<open>Modelled from the spec: \<^verbatim>\<open>cmdGroup.init\<close> (missing). Section 3: a "mapping from
      name to Command Clause (keys unique)"\<close>
  "sample_cmdGroup_init g =
     (if distinct (map (\<lambda>cmd. cmd_name (clauses g ! cmd)) (commandOrder g)) then None
      else Some (Errorf ''duplicate command''))"

text \<open>
  The instance. \<^verbatim>\<open>onCommandHelp\<close> is a method app.go installs only on the argument of the
  command \<^verbatim>\<open>help\<close>, so the root groups never run it and need no command to look up;
  \<^verbatim>\<open>range\<close> visits the map in the order of the association list.
\<close>

definition sample_ops :: GroupOps where
  "sample_ops =
     \<lparr>flagGroup_init = sample_flagGroup_init,
      cmdGroup_init = sample_cmdGroup_init,
      argGroup_init = sample_argGroup_init,
      CmdClause_init = sample_CmdClause_init,
      rangeCommands = (\<lambda>m. m),
      flagGroup_parse = sample_flagGroup_parse [],
      argGroup_parse = sample_argGroup_parse [],
      cmdGroup_parse = sample_cmdGroup_parse\<rparr>"

section \<open>Example applications\<close>

text \<open>
  The applications of the scenarios of the specification (section 8), declared through the
  builder methods as a program would. \<open>chat_args\<close>: a required flag \<^verbatim>\<open>--name\<close> and a
  required argument \<^verbatim>\<open>nick\<close>. \<open>chat_commands\<close>: the command \<^verbatim>\<open>register\<close> with a
  required argument \<^verbatim>\<open>nick\<close>, and the command \<^verbatim>\<open>post\<close> with a required flag
  \<^verbatim>\<open>--channel\<close>, short \<^verbatim>\<open>-a\<close>. \<open>chat_mixed\<close> declares the argument and the commands.
\<close>

definition chat_args :: Application where
  "chat_args =
     (let a = New ''chat'' [];
          a = a\<lparr>flagGroup := Flag (flagGroup a)
                 (Flag_String (Flag_Required (newFlag ''name'' ''name of user'')))\<rparr>;
          a = a\<lparr>argGroup := Arg (argGroup a)
                 (Arg_String (Arg_Required (newArg ''nick'' ''nickname for user'')))\<rparr>
      in a)"

definition chat_commands :: Application where
  "chat_commands =
     (let a = New ''chat'' [];
          (register, g) = Command (cmdGroup a) ''register'' ''Register a new user.'';
          g = Cmd_Arg g register
                (Arg_String (Arg_Required (newArg ''nick'' ''nickname for user'')));
          (post, g) = Command g ''post'' ''Post a message to a channel.'';
          g = Cmd_Flag g post
                (Flag_String (Flag_Required (Flag_Short 0x61
                   (newFlag ''channel'' ''channel to post to''))))
      in a\<lparr>cmdGroup := g\<rparr>)"

definition chat_mixed :: Application where
  "chat_mixed = chat_args\<lparr>cmdGroup := cmdGroup chat_commands\<rparr>"

section \<open>UTF-8: decoding an encoded rune gives the rune back\<close>

lemma lowbits_less: "lowbits b < 64"
  by (simp add: lowbits_def)

lemma valid_runeError: "valid_rune runeError"
  by (simp add: valid_rune_def runeError_def maxRune_def surrogate_def)

lemma decode2_valid: "valid_rune (fst (decode2 s))"
proof -
  have "((of_char (s ! 0) :: nat) mod 32) * 64 + lowbits (s ! 1) \<le> 31 * 64 + 63"
    using lowbits_less [of "s ! 1"] by (intro add_mono mult_le_mono) simp_all
  then have "valid_rune (((of_char (s ! 0) :: nat) mod 32) * 64 + lowbits (s ! 1))"
    by (simp add: valid_rune_def maxRune_def surrogate_def)
  then show ?thesis
    by (simp add: decode2_def Let_def valid_runeError)
qed

lemma decode3_valid: "valid_rune (fst (decode3 s))"
proof -
  define r where
    "r = ((of_char (s ! 0) :: nat) mod 16) * 4096 + lowbits (s ! 1) * 64 + lowbits (s ! 2)"
  have "r \<le> 15 * 4096 + 63 * 64 + 63"
    unfolding r_def using lowbits_less [of "s ! 1"] lowbits_less [of "s ! 2"]
    by (intro add_mono mult_le_mono) simp_all
  then have "r \<le> maxRune"
    by (simp add: maxRune_def)
  then have "\<not> surrogate r \<Longrightarrow> valid_rune r"
    by (simp add: valid_rune_def)
  then show ?thesis
    unfolding decode3_def Let_def r_def [symmetric] using valid_runeError by auto
qed

lemma decode4_valid: "valid_rune (fst (decode4 s))"
proof -
  define r where
    "r = ((of_char (s ! 0) :: nat) mod 8) * 262144 + lowbits (s ! 1) * 4096
           + lowbits (s ! 2) * 64 + lowbits (s ! 3)"
  have "0xFFFF < r \<Longrightarrow> r \<le> maxRune \<Longrightarrow> valid_rune r"
    by (simp add: surrogate_def valid_rune_def)
  then show ?thesis
    unfolding decode4_def Let_def r_def [symmetric] using valid_runeError by auto
qed

lemma decoderune_valid: "valid_rune (fst (decoderune s))"
proof -
  have "s0 < 0x80 \<Longrightarrow> valid_rune s0" for s0
    by (simp add: valid_rune_def maxRune_def surrogate_def)
  then show ?thesis
    by (simp add: decoderune_def Let_def decode2_valid decode3_valid decode4_valid
        valid_runeError)
qed

lemma range_string_valid: "r \<in> set (range_string s) \<Longrightarrow> valid_rune r"
  by (induction s rule: range_string.induct) (auto simp: decoderune_valid)

lemma mod_lead: "q < m \<Longrightarrow> (m * k + q) mod m = (q::nat)"
  by simp

lemma cont_byte:
  "of_char (char_of (0x80 + x mod 64 :: nat)) = (0x80 + x mod 64 :: nat)"
  "contb (char_of (0x80 + x mod 64 :: nat))"
  "lowbits (char_of (0x80 + x mod 64 :: nat)) = x mod 64"
proof -
  show b: "of_char (char_of (0x80 + x mod 64 :: nat)) = (0x80 + x mod 64 :: nat)"
    by simp
  show "contb (char_of (0x80 + x mod 64 :: nat))"
    unfolding contb_def b by simp
  show "lowbits (char_of (0x80 + x mod 64 :: nat)) = x mod 64"
    unfolding lowbits_def b using mod_lead [of "x mod 64" 64 2] by simp
qed

lemma roundtrip1:
  assumes "r \<le> 0x7F"
  shows "decoderune (encoderune r) = (r, 1)"
  using assms by (simp add: encoderune_def decoderune_def Let_def)

lemma roundtrip2:
  assumes "0x7F < r" "r \<le> 0x7FF"
  shows "decoderune (encoderune r) = (r, 2)"
proof -
  have q: "r div 64 < 32" "2 \<le> r div 64" using assms by simp_all
  have b0: "(0xC0 + r div 64) mod 256 = 0xC0 + r div 64" using q by simp
  have b0m: "(0xC0 + r div 64) mod 32 = r div 64"
    using q mod_lead [of "r div 64" 32 6] by simp
  have e: "encoderune r = [char_of (0xC0 + r div 64), char_of (0x80 + r mod 64)]"
    using assms by (simp add: encoderune_def)
  have d2: "decode2 (encoderune r) = (r, 2)"
    using assms by (simp add: e decode2_def Let_def cont_byte b0 b0m)
  show ?thesis using q
    by (simp add: decoderune_def Let_def d2) (simp add: e b0)
qed

lemma join3:
  "z = x * 64 + y \<Longrightarrow> r = z * 64 + m \<Longrightarrow> x * 4096 + y * 64 + m = (r::nat)"
  by simp

lemma split3: "r div 4096 * 4096 + (r div 64) mod 64 * 64 + r mod 64 = (r::nat)"
proof -
  have x: "r div 4096 = (r div 64) div 64"
    by (simp add: div_mult2_eq)
  have "(r div 64) div 64 * 4096 + (r div 64) mod 64 * 64 + r mod 64 = r"
    by (rule join3 [where z = "r div 64"]) simp_all
  then show ?thesis by (simp only: x)
qed

lemma roundtrip3:
  assumes "0x7FF < r" "r \<le> 0xFFFF" "\<not> surrogate r"
  shows "decoderune (encoderune r) = (r, 3)"
proof -
  have q: "r div 4096 < 16" using assms by simp
  have b0: "(0xE0 + r div 4096) mod 256 = 0xE0 + r div 4096" using q by simp
  have b0m: "(0xE0 + r div 4096) mod 16 = r div 4096"
    using q mod_lead [of "r div 4096" 16 14] by simp
  have e: "encoderune r = [char_of (0xE0 + r div 4096), char_of (0x80 + (r div 64) mod 64),
         char_of (0x80 + r mod 64)]"
    using assms by (simp add: encoderune_def maxRune_def)
  have d3: "decode3 (encoderune r) = (r, 3)"
    using assms by (simp add: e decode3_def Let_def cont_byte b0 b0m split3)
  show ?thesis using q
    by (simp add: decoderune_def Let_def d3) (simp add: e b0)
qed

lemma join4:
  "z = x * 64 + y \<Longrightarrow> z * 4096 + w = r \<Longrightarrow> x * 262144 + y * 4096 + w = (r::nat)"
  by simp

lemma split4:
  "r div 262144 * 262144 + (r div 4096) mod 64 * 4096 + (r div 64) mod 64 * 64 + r mod 64
     = (r::nat)"
proof -
  have x: "r div 262144 = (r div 4096) div 64"
    by (simp add: div_mult2_eq)
  have "r div 4096 * 4096 + ((r div 64) mod 64 * 64 + r mod 64) = r"
    using split3 [of r] by simp
  then have "(r div 4096) div 64 * 262144 + (r div 4096) mod 64 * 4096
      + ((r div 64) mod 64 * 64 + r mod 64) = r"
    by (intro join4 [where z = "r div 4096"]) simp_all
  then show ?thesis by (simp only: x add.assoc)
qed

lemma roundtrip4:
  assumes "0xFFFF < r" "r \<le> maxRune"
  shows "decoderune (encoderune r) = (r, 4)"
proof -
  have q: "r div 262144 < 8" using assms by (simp add: maxRune_def)
  have b0: "(0xF0 + r div 262144) mod 256 = 0xF0 + r div 262144" using q by simp
  have b0m: "(0xF0 + r div 262144) mod 8 = r div 262144"
    using q mod_lead [of "r div 262144" 8 30] by simp
  have ns: "\<not> surrogate r" using assms by (simp add: surrogate_def)
  have e: "encoderune r = [char_of (0xF0 + r div 262144), char_of (0x80 + (r div 4096) mod 64),
         char_of (0x80 + (r div 64) mod 64), char_of (0x80 + r mod 64)]"
    using assms ns by (simp add: encoderune_def)
  have d4: "decode4 (encoderune r) = (r, 4)"
    using assms by (simp add: e decode4_def Let_def cont_byte b0 b0m split4)
  show ?thesis using q
    by (simp add: decoderune_def Let_def d4) (simp add: e b0)
qed

lemma length_encoderune:
  "length (encoderune r) = (if r \<le> 0x7F then 1 else if r \<le> 0x7FF then 2
      else if r > maxRune \<or> surrogate r then 3 else if r \<le> 0xFFFF then 3 else 4)"
  by (simp add: encoderune_def)

lemma decoderune_encoderune:
  assumes "valid_rune r"
  shows "decoderune (encoderune r) = (r, length (encoderune r))"
proof -
  consider "r \<le> 0x7F" | "0x7F < r" "r \<le> 0x7FF" | "0x7FF < r" "r \<le> 0xFFFF" | "0xFFFF < r"
    by linarith
  then show ?thesis
  proof cases
    case 1
    then show ?thesis by (simp add: roundtrip1 length_encoderune)
  next
    case 2
    then show ?thesis by (simp add: roundtrip2 length_encoderune)
  next
    case 3
    then show ?thesis using assms by (simp add: roundtrip3 length_encoderune valid_rune_def)
  next
    case 4
    then show ?thesis using assms by (simp add: roundtrip4 length_encoderune valid_rune_def)
  qed
qed

lemma encoderune_not_Nil: "encoderune r \<noteq> []"
  by (simp add: encoderune_def)

lemma range_string_encoderune:
  assumes "valid_rune r"
  shows "range_string (encoderune r) = [r]"
proof -
  obtain c cs where e: "encoderune r = c # cs"
    using encoderune_not_Nil [of r] by (cases "encoderune r") auto
  have "decoderune (c # cs) = (r, Suc (length cs))"
    using decoderune_encoderune [OF assms] by (simp add: e)
  then show ?thesis by (simp add: e)
qed

lemma hd_encoderune:
  assumes "r \<noteq> 0x2D"
  shows "hd (encoderune r) \<noteq> CHR ''-''"
proof -
  have "(of_char (hd (encoderune r)) :: nat) \<noteq> 0x2D"
  proof (cases "r \<le> 0x7F")
    case True
    then show ?thesis using assms by (simp add: encoderune_def)
  next
    case False
    note r1 = this
    show ?thesis
    proof (cases "r \<le> 0x7FF")
      case True
      then have "r div 64 < 32" by simp
      then have "(0xC0 + r div 64) mod 256 = 0xC0 + r div 64" by simp
      then show ?thesis using r1 True by (simp add: encoderune_def)
    next
      case False
      note r2 = this
      show ?thesis
      proof (cases "r > maxRune \<or> surrogate r")
        case True
        then show ?thesis using r1 r2 by (simp add: encoderune_def runeError_def)
      next
        case False
        note r3 = this
        show ?thesis
        proof (cases "r \<le> 0xFFFF")
          case True
          then have "r div 4096 < 16" by simp
          then have "(0xE0 + r div 4096) mod 256 = 0xE0 + r div 4096" by simp
          then show ?thesis using r1 r2 r3 True by (simp add: encoderune_def)
        next
          case False
          have "r \<le> 1114111" using r3 by (simp add: maxRune_def)
          then have "r div 262144 < 8" by simp
          then have "(0xF0 + r div 262144) mod 256 = 0xF0 + r div 262144" by simp
          then show ?thesis using r1 r2 r3 False by (simp add: encoderune_def)
        qed
      qed
    qed
  qed
  then show ?thesis by auto
qed

section \<open>Properties of the lexer\<close>

subsection \<open>Each raw argument contributes its own tokens\<close>

lemma foldl_snoc_map: "foldl (\<lambda>acc a. acc @ [f a]) acc xs = acc @ map f xs"
  by (induction xs arbitrary: acc) simp_all

lemma Tokenize_arg_acc: "Tokenize_arg tokens arg = tokens @ Tokenize_arg [] arg"
  by (simp add: Tokenize_arg_def Let_def foldl_snoc_map)

lemma foldl_Tokenize_arg:
  "foldl Tokenize_arg tokens argv = tokens @ foldl Tokenize_arg [] argv"
proof (induction argv arbitrary: tokens)
  case Nil
  show ?case by simp
next
  case (Cons a argv)
  have "foldl Tokenize_arg tokens (a # argv) = foldl Tokenize_arg (Tokenize_arg tokens a) argv"
    by simp
  also have "\<dots> = Tokenize_arg tokens a @ foldl Tokenize_arg [] argv"
    by (rule Cons.IH)
  also have "\<dots> = tokens @ Tokenize_arg [] a @ foldl Tokenize_arg [] argv"
    by (subst Tokenize_arg_acc) simp
  also have "\<dots> = tokens @ foldl Tokenize_arg (Tokenize_arg [] a) argv"
    by (subst (2) Cons.IH) simp
  finally show ?case by simp
qed

lemma Tokenize_Nil: "Tokenize [] = []"
  by (simp add: Tokenize_def)

lemma Tokenize_single: "Tokenize [arg] = Tokenize_arg [] arg"
  by (simp add: Tokenize_def)

lemma Tokenize_Cons: "Tokenize (arg # argv) = Tokenize [arg] @ Tokenize argv"
  unfolding Tokenize_def by (simp add: foldl_Tokenize_arg [of "Tokenize_arg [] arg"])

lemma Tokenize_append: "Tokenize (xs @ ys) = Tokenize xs @ Tokenize ys"
  unfolding Tokenize_def by (simp add: foldl_Tokenize_arg [of "foldl Tokenize_arg [] xs"])

lemma Tokenize_mid: "Tokenize (pre @ [arg] @ post) = Tokenize pre @ Tokenize [arg] @ Tokenize post"
  by (simp only: Tokenize_append)

subsection \<open>Long flags\<close>

lemma Index_eq_None: "CHR ''='' \<notin> set s \<Longrightarrow> Index s ''='' = None"
  by (induction s) (auto simp: HasPrefix_def)

lemma Index_eq_Some: "CHR ''='' \<in> set s \<Longrightarrow>
    Index s ''='' = Some (length (takeWhile (\<lambda>c. c \<noteq> CHR ''='') s))"
  by (induction s) (auto simp: HasPrefix_def)

lemma SplitN_2_cases:
  "SplitN s ''='' 2 =
     (if CHR ''='' \<in> set s
      then [takeWhile (\<lambda>c. c \<noteq> CHR ''='') s, tl (dropWhile (\<lambda>c. c \<noteq> CHR ''='') s)]
      else [s])"
proof (cases "CHR ''='' \<in> set s")
  case True
  have "drop (Suc (length (takeWhile (\<lambda>c. c \<noteq> CHR ''='') s))) s
          = tl (dropWhile (\<lambda>c. c \<noteq> CHR ''='') s)"
    by (simp add: drop_Suc dropWhile_eq_drop drop_tl)
  moreover have "take (length (takeWhile (\<lambda>c. c \<noteq> CHR ''='') s)) s
          = takeWhile (\<lambda>c. c \<noteq> CHR ''='') s"
    by (rule takeWhile_eq_take [symmetric])
  ultimately show ?thesis
    using True by (simp add: SplitN_def numeral_2_eq_2 Index_eq_Some)
next
  case False
  then show ?thesis
    by (simp add: SplitN_def numeral_2_eq_2 Index_eq_None)
qed

lemma Tokenize_long:
  "Tokenize [''--'' @ s] =
     (if CHR ''='' \<in> set s
      then [Token TokenLong (takeWhile (\<lambda>c. c \<noteq> CHR ''='') s),
            Token TokenArg (tl (dropWhile (\<lambda>c. c \<noteq> CHR ''='') s))]
      else [Token TokenLong s])"
  by (simp add: Tokenize_single Tokenize_arg_def HasPrefix_def SplitN_2_cases)

text \<open>
  C5. A raw argument that begins with \<^verbatim>\<open>--\<close>, wherever it stands among the arguments,
  contributes exactly one \<^verbatim>\<open>TokenLong\<close> whose text is what stands between the prefix and
  the first \<^verbatim>\<open>=\<close> (all of the remainder when there is no \<^verbatim>\<open>=\<close>), followed at once by
  exactly one \<^verbatim>\<open>TokenArg\<close> holding everything after the first \<^verbatim>\<open>=\<close> when there is one,
  and by no token of its own otherwise.
\<close>

theorem Tokenize_long_flag:
  "Tokenize (pre @ [''--'' @ s] @ post) =
     Tokenize pre @
     (if CHR ''='' \<in> set s
      then [Token TokenLong (takeWhile (\<lambda>c. c \<noteq> CHR ''='') s),
            Token TokenArg (tl (dropWhile (\<lambda>c. c \<noteq> CHR ''='') s))]
      else [Token TokenLong s]) @
     Tokenize post"
  by (simp only: Tokenize_mid Tokenize_long)

subsection \<open>Clustered short flags\<close>

lemma Tokenize_short:
  assumes "take 1 s \<noteq> ''-''"
  shows "Tokenize [CHR ''-'' # s] = map (\<lambda>a. Token TokenShort (encoderune a)) (range_string s)"
  using assms
  by (cases s) (simp_all add: Tokenize_single Tokenize_arg_def HasPrefix_def foldl_snoc_map)

lemma Tokenize_short_rune:
  assumes "valid_rune r" "r \<noteq> 0x2D"
  shows "Tokenize [CHR ''-'' # encoderune r] = [Token TokenShort (encoderune r)]"
proof -
  have "take 1 (encoderune r) = [hd (encoderune r)]"
    using encoderune_not_Nil [of r] by (cases "encoderune r") simp_all
  then have "take 1 (encoderune r) \<noteq> ''-''"
    using hd_encoderune [OF assms(2)] by simp
  then show ?thesis
    using assms(1) by (simp add: Tokenize_short range_string_encoderune)
qed

lemma Tokenize_short_runes:
  assumes "\<forall>r \<in> set rs. valid_rune r \<and> r \<noteq> 0x2D"
  shows "Tokenize (map (\<lambda>c. CHR ''-'' # encoderune c) rs)
           = map (\<lambda>a. Token TokenShort (encoderune a)) rs"
  using assms
proof (induction rs)
  case Nil
  show ?case by (simp add: Tokenize_Nil)
next
  case (Cons r rs)
  have "Tokenize (map (\<lambda>c. CHR ''-'' # encoderune c) (r # rs))
          = Tokenize [CHR ''-'' # encoderune r] @ Tokenize (map (\<lambda>c. CHR ''-'' # encoderune c) rs)"
    by (simp only: list.map) (rule Tokenize_Cons)
  then show ?case using Cons by (simp add: Tokenize_short_rune)
qed

subsection \<open>The byte \<^verbatim>\<open>-\<close> is always a character of its own\<close>

lemma take_contb:
  assumes "n \<le> length cs" "\<forall>i<n. contb (cs ! i)" "b \<in> set (take n cs)"
  shows "contb b"
  using assms by (auto simp: in_set_conv_nth)

lemma decode2_skipped: "b \<in> set (take (snd (decode2 (c # cs)) - 1) cs) \<Longrightarrow> contb b"
proof -
  assume b: "b \<in> set (take (snd (decode2 (c # cs)) - 1) cs)"
  show ?thesis
  proof (cases "snd (decode2 (c # cs)) = 2")
    case True
    then have "cs \<noteq> [] \<and> contb (cs ! 0)"
      by (auto simp: decode2_def Let_def split: if_splits)
    then have "1 \<le> length cs" "\<forall>i<1. contb (cs ! i)"
      by (auto simp: Suc_le_eq)
    then show ?thesis using b True take_contb [of 1 cs b] by simp
  next
    case False
    then have "snd (decode2 (c # cs)) = 1"
      by (auto simp: decode2_def Let_def split: if_splits)
    then show ?thesis using b by simp
  qed
qed

lemma decode3_skipped: "b \<in> set (take (snd (decode3 (c # cs)) - 1) cs) \<Longrightarrow> contb b"
proof -
  assume b: "b \<in> set (take (snd (decode3 (c # cs)) - 1) cs)"
  show ?thesis
  proof (cases "snd (decode3 (c # cs)) = 3")
    case True
    then have "length cs \<ge> 2 \<and> contb (cs ! 0) \<and> contb (cs ! 1)"
      by (auto simp: decode3_def Let_def split: if_splits)
    then have "2 \<le> length cs" "\<forall>i<2. contb (cs ! i)"
      by (auto simp: less_Suc_eq numeral_2_eq_2)
    then show ?thesis using b True take_contb [of 2 cs b] by simp
  next
    case False
    then have "snd (decode3 (c # cs)) = 1"
      by (auto simp: decode3_def Let_def split: if_splits)
    then show ?thesis using b by simp
  qed
qed

lemma decode4_skipped: "b \<in> set (take (snd (decode4 (c # cs)) - 1) cs) \<Longrightarrow> contb b"
proof -
  assume b: "b \<in> set (take (snd (decode4 (c # cs)) - 1) cs)"
  show ?thesis
  proof (cases "snd (decode4 (c # cs)) = 4")
    case True
    then have "length cs \<ge> 3 \<and> contb (cs ! 0) \<and> contb (cs ! 1) \<and> contb (cs ! 2)"
      by (auto simp: decode4_def Let_def split: if_splits)
    then have "3 \<le> length cs" "\<forall>i<3. contb (cs ! i)"
      by (auto simp: less_Suc_eq numeral_3_eq_3 numeral_2_eq_2)
    then show ?thesis using b True take_contb [of 3 cs b] by simp
  next
    case False
    then have "snd (decode4 (c # cs)) = 1"
      by (auto simp: decode4_def Let_def split: if_splits)
    then show ?thesis using b by simp
  qed
qed

lemma decoderune_skipped: "b \<in> set (take (snd (decoderune (c # cs)) - 1) cs) \<Longrightarrow> contb b"
  using decode2_skipped [of b c cs] decode3_skipped [of b c cs] decode4_skipped [of b c cs]
  by (auto simp: decoderune_def Let_def split: if_splits)

lemma contb_not_dash: "contb b \<Longrightarrow> b \<noteq> CHR ''-''"
  by (auto simp: contb_def)

lemma decode2_not_ascii: "\<not> fst (decode2 s) < 0x80"
  by (simp add: decode2_def Let_def runeError_def)

lemma decode3_not_ascii: "\<not> fst (decode3 s) < 0x80"
  by (simp add: decode3_def Let_def runeError_def)

lemma decode4_not_ascii: "\<not> fst (decode4 s) < 0x80"
  by (simp add: decode4_def Let_def runeError_def)

lemma of_char_dash: "((of_char c :: nat) = 0x2D) = (c = CHR ''-'')"
proof
  assume h: "(of_char c :: nat) = 0x2D"
  have "char_of (of_char c :: nat) = c" by simp
  then have "c = char_of (0x2D :: nat)" by (simp only: h)
  also have "\<dots> = CHR ''-''" by code_simp
  finally show "c = CHR ''-''" .
next
  assume "c = CHR ''-''"
  then show "(of_char c :: nat) = 0x2D" by simp
qed

lemma fst_decoderune_dash: "(fst (decoderune (c # cs)) = 0x2D) = (c = CHR ''-'')"
proof (cases "(of_char c :: nat) < 0x80")
  case True
  then have "fst (decoderune (c # cs)) = of_char c"
    by (simp add: decoderune_def)
  then show ?thesis by (simp only: of_char_dash)
next
  case False
  then have "c \<noteq> CHR ''-''" by auto
  moreover have "\<not> fst (decoderune (c # cs)) < 0x80"
    using False decode2_not_ascii [of "c # cs"] decode3_not_ascii [of "c # cs"]
      decode4_not_ascii [of "c # cs"]
    by (simp add: decoderune_def Let_def runeError_def)
  ultimately show ?thesis by auto
qed

text \<open>
  A \<^verbatim>\<open>range\<close> loop reads the character \<^verbatim>\<open>-\<close> from a string exactly when the string holds
  the byte \<^verbatim>\<open>-\<close>: the bytes a multi-byte sequence takes after its first are continuation
  bytes.
\<close>

lemma range_string_dash: "(0x2D \<in> set (range_string s)) = (CHR ''-'' \<in> set s)"
proof (induction s rule: range_string.induct)
  case 1
  show ?case by simp
next
  case (2 c cs)
  let ?w = "snd (decoderune (c # cs))"
  have "CHR ''-'' \<notin> set (take (?w - 1) cs)"
    using decoderune_skipped [of "CHR ''-''" c cs] contb_not_dash by blast
  moreover have "set cs = set (take (?w - 1) cs) \<union> set (drop (?w - 1) cs)"
    by (metis append_take_drop_id set_append)
  ultimately have t: "(CHR ''-'' \<in> set cs) = (CHR ''-'' \<in> set (drop (?w - 1) cs))"
    by auto
  have "(0x2D \<in> set (range_string (c # cs)))
          = (fst (decoderune (c # cs)) = 0x2D \<or> 0x2D \<in> set (range_string (drop (?w - 1) cs)))"
    by auto
  also have "\<dots> = (c = CHR ''-'' \<or> CHR ''-'' \<in> set (drop (?w - 1) cs))"
    by (simp only: fst_decoderune_dash 2)
  also have "\<dots> = (CHR ''-'' \<in> set (c # cs))"
    using t by auto
  finally show ?case .
qed

subsection \<open>Clusters and separate short flags\<close>

text \<open>
  C6, as the code has it. For a raw argument \<^verbatim>\<open>-\<close> followed by the characters
  \<open>c1 .. cn\<close> (the code points a \<^verbatim>\<open>range\<close> loop reads from the rest of the argument),
  none of which is \<^verbatim>\<open>-\<close>, \<^verbatim>\<open>Tokenize\<close> gives the same tokens as for the \<open>n\<close>
  separate arguments \<^verbatim>\<open>-c1\<close> .. \<^verbatim>\<open>-cn\<close>. (By \<open>range_string_dash\<close> that is: the argument
  holds no byte \<^verbatim>\<open>-\<close> after its first.)
\<close>

theorem Tokenize_clustering:
  assumes "0x2D \<notin> set (range_string s)"
  shows "Tokenize [''-'' @ s] = Tokenize (map (\<lambda>c. ''-'' @ encoderune c) (range_string s))"
proof -
  have h: "take 1 s \<noteq> ''-''"
  proof (cases s)
    case Nil
    then show ?thesis by simp
  next
    case (Cons c cs)
    show ?thesis
    proof
      assume "take 1 s = ''-''"
      then have "decoderune (c # cs) = (0x2D, 1)" using Cons by (simp add: decoderune_def)
      then show False using assms Cons by simp
    qed
  qed
  have "\<forall>r \<in> set (range_string s). valid_rune r \<and> r \<noteq> 0x2D"
    using assms range_string_valid by auto
  then show ?thesis
    using Tokenize_short [OF h] Tokenize_short_runes by simp
qed

lemma runes_abc:
  "map (\<lambda>c. ''-'' @ encoderune c) (range_string ''abc'') = [''-a'', ''-b'', ''-c'']"
  by code_simp

text \<open>The instance the specification names: \<^verbatim>\<open>-abc\<close> and \<^verbatim>\<open>-a -b -c\<close>.\<close>

theorem Tokenize_clustering_witness:
  "0x2D \<notin> set (range_string ''abc'') \<and>
   Tokenize [''-abc''] = Tokenize [''-a'', ''-b'', ''-c'']"
  using Tokenize_clustering [of "''abc''"] unfolding runes_abc
  by (simp add: decoderune_def)

text \<open>
  C6 as stated fails when one of the characters is \<^verbatim>\<open>-\<close>: in a cluster it is a short
  flag like any other, but on its own \<^verbatim>\<open>--\<close> is a long flag with the empty name.
\<close>

theorem Tokenize_clustering_counterexample:
  "Tokenize [''-a-''] \<noteq> Tokenize [''-a'', ''--'']"
  by code_simp

subsection \<open>The arguments \<^verbatim>\<open>-\<close> and \<^verbatim>\<open>--\<close>\<close>

lemma Tokenize_dash: "Tokenize [''-''] = []"
  by (simp add: Tokenize_single Tokenize_arg_def HasPrefix_def)

text \<open>
  C8. The raw argument \<^verbatim>\<open>-\<close> contributes no token at all, alone and among other
  arguments: no \<^verbatim>\<open>TokenArg\<close>, and, \<^verbatim>\<open>Tokenize\<close> returning only tokens, no error.
\<close>

theorem Tokenize_single_dash:
  "Tokenize [''-''] = [] \<and> Tokenize (pre @ [''-''] @ post) = Tokenize pre @ Tokenize post"
  by (simp only: Tokenize_mid Tokenize_dash append_Nil simp_thms)

text \<open>
  C9. \<^verbatim>\<open>--\<close> is a long flag with the empty name, and \<^verbatim>\<open>--=v\<close> is that flag followed by
  the value \<open>v\<close>. The arguments after \<^verbatim>\<open>--\<close> are tokenized as they would be without it:
  it ends nothing.
\<close>

theorem Tokenize_double_dash:
  "Tokenize [''--''] = [Token TokenLong []]
   \<and> Tokenize [''--='' @ v] = [Token TokenLong [], Token TokenArg v]
   \<and> Tokenize (pre @ [''--''] @ post) = Tokenize pre @ [Token TokenLong []] @ Tokenize post"
proof -
  have a: "Tokenize [''--''] = [Token TokenLong []]"
    using Tokenize_long [of "[]"] by simp
  have b: "Tokenize [''--='' @ v] = [Token TokenLong [], Token TokenArg v]"
    using Tokenize_long [of "''='' @ v"] by simp
  have c: "Tokenize (pre @ [''--''] @ post) = Tokenize pre @ [Token TokenLong []] @ Tokenize post"
    by (simp only: Tokenize_mid a)
  show ?thesis using a b c by simp
qed

subsection \<open>The token cursor\<close>

lemma Tokenize_arg_no_EOF:
  "tok \<in> set (Tokenize_arg [] arg) \<Longrightarrow> Type tok \<noteq> TokenEOF"
  by (auto simp: Tokenize_arg_def Let_def foldl_snoc_map split: if_splits)

lemma Tokenize_no_EOF: "tok \<in> set (Tokenize argv) \<Longrightarrow> Type tok \<noteq> TokenEOF"
proof (induction argv)
  case Nil
  then show ?case by (simp add: Tokenize_Nil)
next
  case (Cons a argv)
  then show ?case
    using Tokenize_Cons [of a argv] Tokenize_arg_no_EOF [of tok a]
    by (auto simp: Tokenize_single)
qed

text \<open>
  C7. Returning a token of type \<^verbatim>\<open>TokenEOF\<close> leaves the cursor as it is; returning any
  other token puts it in front. So \<^verbatim>\<open>Next\<close> followed by \<^verbatim>\<open>Return\<close> of the token read
  restores the cursor: from the empty cursor \<^verbatim>\<open>Next\<close> yields the end-of-stream marker,
  whose return changes nothing, and from any other cursor it yields the first token, which
  is put back in front when it is not itself of type \<^verbatim>\<open>TokenEOF\<close>.
\<close>

theorem Return_pushback:
  "Return t (Token TokenEOF v) = t
   \<and> (Type tok \<noteq> TokenEOF \<longrightarrow> Return t tok = tok # t)
   \<and> (t = [] \<or> Type (hd t) \<noteq> TokenEOF \<longrightarrow> Return (snd (Next t)) (fst (Next t)) = t)"
  by (cases t) (simp_all add: Return_def Next_def TokenEOFMarker_def)

theorem Return_pushback_witness:
  "Return [Token TokenArg ''x''] (Token TokenEOF []) = [Token TokenArg ''x'']
   \<and> Return [Token TokenArg ''x''] (Token TokenShort ''a'')
        = [Token TokenShort ''a'', Token TokenArg ''x'']
   \<and> Return (snd (Next (Tokenize [''-a'', ''x''])))
        (fst (Next (Tokenize [''-a'', ''x'']))) = Tokenize [''-a'', ''x'']
   \<and> Return (snd (Next [])) (fst (Next [])) = []"
proof -
  have t: "Tokenize [''-a'', ''x''] = [Token TokenShort ''a'', Token TokenArg ''x'']"
    by code_simp
  show ?thesis
    using Return_pushback [of "[Token TokenArg ''x'']" "[]" "Token TokenShort ''a''"]
      Return_pushback [of "Tokenize [''-a'', ''x'']"]
      Return_pushback [of "[]"]
    by (simp add: t)
qed

subsection \<open>Further properties of the lexer\<close>

text \<open>
  The tokens of a list of raw arguments are the tokens of its arguments, one argument
  after the other: no argument changes how another is read.
\<close>

theorem Tokenize_concat: "Tokenize (xs @ ys) = Tokenize xs @ Tokenize ys"
  by (rule Tokenize_append)

text \<open>
  A raw argument that does not begin with \<^verbatim>\<open>-\<close> is one \<^verbatim>\<open>TokenArg\<close> holding the
  argument as it is.
\<close>

theorem Tokenize_bare:
  assumes "\<not> HasPrefix arg ''-''"
  shows "Tokenize [arg] = [Token TokenArg arg]"
proof -
  have "\<not> HasPrefix arg ''--''"
    using assms by (cases arg) (auto simp: HasPrefix_def)
  then show ?thesis
    using assms by (simp add: Tokenize_single Tokenize_arg_def)
qed

theorem Tokenize_bare_witness:
  "\<not> HasPrefix ''a-b=c'' ''-'' \<and> Tokenize [''a-b=c''] = [Token TokenArg ''a-b=c'']"
proof -
  have h: "\<not> HasPrefix ''a-b=c'' ''-''" by (simp add: HasPrefix_def)
  show ?thesis using h Tokenize_bare [OF h] by simp
qed

text \<open>
  \<^verbatim>\<open>Tokenize\<close> emits no token of type \<^verbatim>\<open>TokenEOF\<close>, so on every cursor it returns,
  \<^verbatim>\<open>Next\<close> followed by \<^verbatim>\<open>Return\<close> of the token read gives the cursor back, and \<^verbatim>\<open>Peek\<close>
  is the token \<^verbatim>\<open>Next\<close> reads.
\<close>

theorem Tokenize_Next_Return:
  "Return (snd (Next (Tokenize argv))) (fst (Next (Tokenize argv))) = Tokenize argv
   \<and> Peek (Tokenize argv) = fst (Next (Tokenize argv))"
proof (cases "Tokenize argv")
  case Nil
  then show ?thesis by (simp add: Return_def Next_def Peek_def TokenEOFMarker_def)
next
  case (Cons t ts)
  then have "Type t \<noteq> TokenEOF"
    using Tokenize_no_EOF [of t argv] by simp
  then show ?thesis using Cons by (simp add: Return_def Next_def Peek_def)
qed

section \<open>Properties of the application\<close>

subsection \<open>Initialization\<close>

text \<open>
  C3. An application that declares at least one top-level argument and at least one
  top-level command, and on which \<^verbatim>\<open>init\<close> has not yet succeeded, is rejected by \<^verbatim>\<open>init\<close>
  with an error; \<^verbatim>\<open>Parse\<close> then returns that error and no command for every argument list,
  and the application is as it was: nothing was declared, initialized or bound, and no
  group saw a token.
\<close>

theorem init_rejects_mixed:
  assumes "\<not> initialized a"
    and "args (argGroup a) \<noteq> []"
    and "commands (cmdGroup a) \<noteq> []"
  shows "init ops a = (a, Some (Errorf ''can't mix top-level Arg()s with Command()s''))
       \<and> Parse ops a argv
           = Returns (a, [], Some (Errorf ''can't mix top-level Arg()s with Command()s''))"
proof -
  have i: "init ops a = (a, Some (Errorf ''can't mix top-level Arg()s with Command()s''))"
    using assms by (simp add: init_def cmdGroup_have_def argGroup_have_def)
  show ?thesis
    unfolding Parse_def i by simp
qed

theorem init_rejects_mixed_witness:
  "\<not> initialized chat_mixed
   \<and> length (args (argGroup chat_mixed)) = 1
   \<and> map fst (commands (cmdGroup chat_mixed)) = [''register'', ''post'']
   \<and> init sample_ops chat_mixed
        = (chat_mixed, Some (Errorf ''can't mix top-level Arg()s with Command()s''))
   \<and> Parse sample_ops chat_mixed [''post'', ''-a'', ''general'']
        = Returns (chat_mixed, [],
            Some (Errorf ''can't mix top-level Arg()s with Command()s''))"
proof -
  have h: "\<not> initialized chat_mixed"
    "length (args (argGroup chat_mixed)) = 1"
    "map fst (commands (cmdGroup chat_mixed)) = [''register'', ''post'']"
    by code_simp+
  have "args (argGroup chat_mixed) \<noteq> []" "commands (cmdGroup chat_mixed) \<noteq> []"
    using h(2,3) by auto
  then show ?thesis
    using h init_rejects_mixed [of chat_mixed sample_ops "[''post'', ''-a'', ''general'']"]
    by simp
qed

lemma cmdGroup_init_help:
  "cmdGroup (init_help a) =
     \<lparr>clauses = clauses (cmdGroup a) @
         [\<lparr>cmd_flagGroup = newFlagGroup,
           cmd_argGroup = \<lparr>args = [\<lparr>arg_name = ''command'', arg_help = ''Command name.'',
              arg_required = True, arg_dispatch = Some onCommandHelp,
              arg_value = stringValue []\<rparr>]\<rparr>,
           cmd_name = ''help'', cmd_help = ''Show help for a command.'', cmd_dispatch = None\<rparr>],
      commands = AList.update ''help'' (length (clauses (cmdGroup a))) (commands (cmdGroup a)),
      commandOrder = length (clauses (cmdGroup a)) # commandOrder (cmdGroup a)\<rparr>"
  by (simp add: init_help_def Command_def Cmd_Arg_def Let_def newCommand_def Arg_def newArg_def
      Arg_Required_def Arg_Dispatch_def Arg_String_def newArgGroup_def)

lemma init_first_success:
  assumes "\<not> initialized a" "init ops a = (a', None)"
  shows "a' = (if length (commands (cmdGroup a)) > 0 then init_help a else a)
                \<lparr>initialized := True\<rparr>"
  using assms
  by (auto simp: init_def Let_def split: if_splits option.splits)

text \<open>
  C2. Take an application with at least one declared command on which \<^verbatim>\<open>init\<close> has not
  yet succeeded. When \<^verbatim>\<open>init\<close> succeeds, the command order is a new clause followed by
  the previous command order, unchanged; the previously declared clauses are unchanged; the
  new clause is named \<^verbatim>\<open>help\<close> and has exactly one argument, \<^verbatim>\<open>command\<close>, which is
  required; and \<^verbatim>\<open>commands\<close> maps \<^verbatim>\<open>help\<close> to the new clause and every other name as
  before.
\<close>

theorem init_help_first:
  assumes "\<not> initialized a"
    and "commands (cmdGroup a) \<noteq> []"
    and "init ops a = (a', None)"
  shows "commandOrder (cmdGroup a') = length (clauses (cmdGroup a)) # commandOrder (cmdGroup a)
    \<and> clauses (cmdGroup a') = clauses (cmdGroup a) @
         [\<lparr>cmd_flagGroup = newFlagGroup,
           cmd_argGroup = \<lparr>args = [\<lparr>arg_name = ''command'', arg_help = ''Command name.'',
              arg_required = True, arg_dispatch = Some onCommandHelp,
              arg_value = stringValue []\<rparr>]\<rparr>,
           cmd_name = ''help'', cmd_help = ''Show help for a command.'', cmd_dispatch = None\<rparr>]
    \<and> map_of (commands (cmdGroup a'))
        = (map_of (commands (cmdGroup a)))(''help'' \<mapsto> length (clauses (cmdGroup a)))"
proof -
  have "a' = (init_help a)\<lparr>initialized := True\<rparr>"
    using init_first_success [OF assms(1,3)] assms(2) by simp
  then have "cmdGroup a' = cmdGroup (init_help a)" by simp
  then show ?thesis
    by (simp add: cmdGroup_init_help update_conv')
qed

lemma chat_commands_init: "snd (init sample_ops chat_commands) = None"
  by code_simp

lemma chat_commands_before:
  "\<not> initialized chat_commands"
  "commands (cmdGroup chat_commands) = [(''register'', 0), (''post'', 1)]"
  "commandOrder (cmdGroup chat_commands) = [0, 1]"
  "length (clauses (cmdGroup chat_commands)) = 2"
  by code_simp+

theorem init_help_first_witness:
  "\<not> initialized chat_commands
   \<and> commands (cmdGroup chat_commands) = [(''register'', 0), (''post'', 1)]
   \<and> commandOrder (cmdGroup chat_commands) = [0, 1]
   \<and> snd (init sample_ops chat_commands) = None
   \<and> commandOrder (cmdGroup (fst (init sample_ops chat_commands))) = [2, 0, 1]
   \<and> cmd_name (clauses (cmdGroup (fst (init sample_ops chat_commands))) ! 2) = ''help''
   \<and> map arg_name (args (cmd_argGroup
         (clauses (cmdGroup (fst (init sample_ops chat_commands))) ! 2))) = [''command'']
   \<and> map_of (commands (cmdGroup (fst (init sample_ops chat_commands)))) ''help'' = Some 2"
proof -
  have i: "init sample_ops chat_commands = (fst (init sample_ops chat_commands), None)"
    using chat_commands_init by (simp add: prod_eq_iff)
  have n: "commands (cmdGroup chat_commands) \<noteq> []"
    by (simp add: chat_commands_before)
  show ?thesis
    using init_help_first [OF chat_commands_before(1) n i] chat_commands_init
    by (simp add: chat_commands_before nth_append)
qed

lemma init_Some_initialized:
  assumes "init ops a = (a', None)"
  shows "initialized a'"
  using assms
  by (auto simp: init_def Let_def split: if_splits option.splits)

text \<open>
  C4. When \<^verbatim>\<open>init\<close> has succeeded on an application and left it as \<open>a'\<close>, a second call
  returns no error and leaves \<open>a'\<close> as it is, with all its flags, arguments, commands and
  the command order: nothing is declared again.
\<close>

theorem init_idempotent:
  assumes "init ops a = (a', None)"
  shows "init ops a' = (a', None)"
  using init_Some_initialized [OF assms] by (simp add: init_def)

theorem init_idempotent_witness:
  "snd (init sample_ops chat_commands) = None
   \<and> init sample_ops (fst (init sample_ops chat_commands))
       = (fst (init sample_ops chat_commands), None)
   \<and> map fst (commands (cmdGroup (fst (init sample_ops (fst (init sample_ops chat_commands))))))
       = [''register'', ''post'', ''help'']"
proof -
  have i: "init sample_ops chat_commands = (fst (init sample_ops chat_commands), None)"
    using chat_commands_init by (simp add: prod_eq_iff)
  have c: "map fst (commands (cmdGroup (fst (init sample_ops chat_commands))))
             = [''register'', ''post'', ''help'']"
    by code_simp
  show ?thesis
    using init_idempotent [OF i] chat_commands_init c by simp
qed

subsection \<open>Parse\<close>

text \<open>
  C1. When \<^verbatim>\<open>init\<close> has succeeded and \<^verbatim>\<open>Application.parse\<close> (the root flag group, then
  the root argument group or the root command group) has returned without an error and
  with tokens left in the cursor, \<^verbatim>\<open>Parse\<close> returns no command and an error: "unexpected
  argument" for one token left, "unexpected arguments" for more, with the tokens left.
\<close>

theorem Parse_trailing:
  assumes "init ops a = (a1, None)"
    and "parse ops a1 (Tokenize argv) = Returns (a2, tokens, command, None)"
    and "tokens \<noteq> []"
  shows "Parse ops a argv =
     Returns (a2, [],
       Some (Errorf (''unexpected argument'' @ (if length tokens = 1 then [] else ''s'')
                       @ '' '' @ [CHR 0x27] @ Tokens_String tokens @ [CHR 0x27])))"
  using assms by (simp add: Parse_def)

lemma chat_commands_parse:
  "parse sample_ops (fst (init sample_ops chat_commands))
       (Tokenize [''post'', ''-a'', ''general'', ''hello''])
     = Returns (fst (returned (parse sample_ops (fst (init sample_ops chat_commands))
                  (Tokenize [''post'', ''-a'', ''general'', ''hello'']))),
                [Token TokenArg ''hello''], ''post'', None)"
  by code_simp

text \<open>
  Scenario 3 of the specification: \<^verbatim>\<open>post -a general hello\<close> selects \<^verbatim>\<open>post\<close>, binds
  the channel, and fails on the trailing \<^verbatim>\<open>hello\<close>.
\<close>

theorem Parse_trailing_witness:
  "snd (init sample_ops chat_commands) = None
   \<and> Parse sample_ops chat_commands [''post'', ''-a'', ''general'', ''hello'']
     = Returns (fst (returned (parse sample_ops (fst (init sample_ops chat_commands))
                  (Tokenize [''post'', ''-a'', ''general'', ''hello'']))),
                [], Some (Errorf (''unexpected argument '' @ [CHR 0x27] @ ''Tokens{hello}''
                                    @ [CHR 0x27])))"
proof -
  have i: "init sample_ops chat_commands = (fst (init sample_ops chat_commands), None)"
    using chat_commands_init by (simp add: prod_eq_iff)
  have s: "Tokens_String [Token TokenArg ''hello''] = ''Tokens{hello}''"
    by code_simp
  show ?thesis
    using Parse_trailing [OF i chat_commands_parse] chat_commands_init
    by (simp add: s)
qed

text \<open>
  C10. Whenever \<^verbatim>\<open>Parse\<close> returns with an error, the command it returns is the empty
  string.
\<close>

theorem Parse_error_no_command:
  assumes "Parse ops a argv = Returns (a', command, Some err)"
  shows "command = []"
  using assms
  by (auto simp: Parse_def Let_def split: prod.splits option.splits outcome.splits if_splits)

lemma chat_args_Parse:
  "Parse sample_ops chat_args [''Alice'']
     = Returns (fst (returned (Parse sample_ops chat_args [''Alice''])),
                fst (snd (returned (Parse sample_ops chat_args [''Alice'']))),
                Some (Errorf ''required flag --name not provided''))"
  by code_simp

text \<open>
  Scenario 2 of the specification: \<^verbatim>\<open>Alice\<close> alone, the required flag \<^verbatim>\<open>--name\<close>
  missing.
\<close>

theorem Parse_error_no_command_witness:
  "snd (snd (returned (Parse sample_ops chat_args [''Alice''])))
     = Some (Errorf ''required flag --name not provided'')
   \<and> fst (snd (returned (Parse sample_ops chat_args [''Alice'']))) = []"
  using Parse_error_no_command [OF chat_args_Parse] chat_args_Parse
  by (metis outcome.sel(2) snd_conv)

subsection \<open>Further properties of the application\<close>

text \<open>
  When \<^verbatim>\<open>init\<close> has succeeded and \<^verbatim>\<open>Application.parse\<close> has returned without an error
  and with an empty cursor, \<^verbatim>\<open>Parse\<close> returns the command \<^verbatim>\<open>parse\<close> selected and no
  error.
\<close>

theorem Parse_accepts:
  assumes "init ops a = (a1, None)"
    and "parse ops a1 (Tokenize argv) = Returns (a2, [], command, None)"
  shows "Parse ops a argv = Returns (a2, command, None)"
  using assms by (simp add: Parse_def)

lemma chat_commands_accept:
  "parse sample_ops (fst (init sample_ops chat_commands))
       (Tokenize [''post'', ''--channel=general''])
     = Returns (fst (returned (parse sample_ops (fst (init sample_ops chat_commands))
                  (Tokenize [''post'', ''--channel=general'']))),
                [], ''post'', None)"
  by code_simp

theorem Parse_accepts_witness:
  "snd (init sample_ops chat_commands) = None
   \<and> Parse sample_ops chat_commands [''post'', ''--channel=general'']
     = Returns (fst (returned (parse sample_ops (fst (init sample_ops chat_commands))
                  (Tokenize [''post'', ''--channel=general'']))),
                ''post'', None)"
proof -
  have i: "init sample_ops chat_commands = (fst (init sample_ops chat_commands), None)"
    using chat_commands_init by (simp add: prod_eq_iff)
  show ?thesis
    using Parse_accepts [OF i chat_commands_accept] chat_commands_init by simp
qed

text \<open>
  When a hook exits the process while \<^verbatim>\<open>Application.parse\<close> runs, \<^verbatim>\<open>Parse\<close> does not
  return: the process ends with the hook's status.
\<close>

theorem Parse_exits:
  assumes "init ops a = (a1, None)"
    and "parse ops a1 (Tokenize argv) = Exit code"
  shows "Parse ops a argv = Exit code"
  using assms by (simp add: Parse_def)

lemma chat_commands_help:
  "parse sample_ops (fst (init sample_ops chat_commands)) (Tokenize [''help'', ''register''])
     = Exit 0"
  by code_simp

text \<open>
  Scenario 4 of the specification: \<^verbatim>\<open>help register\<close> ends the process with status 0,
  although the required argument of \<^verbatim>\<open>register\<close> is not given.
\<close>

theorem Parse_exits_witness:
  "snd (init sample_ops chat_commands) = None
   \<and> Parse sample_ops chat_commands [''help'', ''register''] = Exit 0"
proof -
  have i: "init sample_ops chat_commands = (fst (init sample_ops chat_commands), None)"
    using chat_commands_init by (simp add: prod_eq_iff)
  show ?thesis
    using Parse_exits [OF i chat_commands_help] chat_commands_init by simp
qed

text \<open>
  A call of \<^verbatim>\<open>init\<close> that returns an error leaves the latch \<^verbatim>\<open>initialized\<close> unset, so
  the next call validates again.
\<close>

theorem init_failure_unlatched:
  assumes "init ops a = (a', Some err)"
  shows "\<not> initialized a \<and> \<not> initialized a'"
proof -
  have n: "\<not> initialized a"
    using assms by (auto simp: init_def)
  have "initialized (init_help a) = initialized a"
    by (simp add: init_help_def Let_def split: prod.splits)
  then show ?thesis
    using assms n
    by (auto simp: init_def Let_def split: if_splits option.splits)
qed

theorem init_failure_unlatched_witness:
  "init sample_ops chat_mixed
     = (chat_mixed, Some (Errorf ''can't mix top-level Arg()s with Command()s''))
   \<and> \<not> initialized chat_mixed"
proof -
  have i: "init sample_ops chat_mixed
             = (chat_mixed, Some (Errorf ''can't mix top-level Arg()s with Command()s''))"
    by code_simp
  show ?thesis
    using init_failure_unlatched [OF i] i by simp
qed

text \<open>
  \<^verbatim>\<open>init\<close> sets the latch only on an application that does not declare both top-level
  arguments and top-level commands: an application that declares both and has the latch
  set had a clause declared after its initialization.
\<close>

theorem init_latch_not_mixed:
  assumes "\<not> initialized a"
    and "init ops a = (a', None)"
  shows "initialized a' \<and> (args (argGroup a') = [] \<or> commands (cmdGroup a') = [])"
proof -
  have a': "a' = (if length (commands (cmdGroup a)) > 0 then init_help a else a)
                   \<lparr>initialized := True\<rparr>"
    by (rule init_first_success [OF assms])
  have n: "args (argGroup a) = [] \<or> commands (cmdGroup a) = []"
    using assms by (auto simp: init_def cmdGroup_have_def argGroup_have_def split: if_splits)
  have "argGroup (init_help a) = argGroup a"
    by (simp add: init_help_def Let_def split: prod.splits)
  then show ?thesis
    using a' n by auto
qed

theorem init_latch_not_mixed_witness:
  "\<not> initialized chat_commands
   \<and> snd (init sample_ops chat_commands) = None
   \<and> initialized (fst (init sample_ops chat_commands))
   \<and> args (argGroup (fst (init sample_ops chat_commands))) = []"
proof -
  have i: "init sample_ops chat_commands = (fst (init sample_ops chat_commands), None)"
    using chat_commands_init by (simp add: prod_eq_iff)
  have c: "commands (cmdGroup (fst (init sample_ops chat_commands))) \<noteq> []"
    by code_simp
  show ?thesis
    using init_latch_not_mixed [OF chat_commands_before(1) i] chat_commands_init
      chat_commands_before(1) c
    by simp
qed

end
